theory Spec2Isabelle
  imports Main "HOL-Library.Word" "HOL-Library.Multiset"
begin

unbundle bit_operations_syntax

section \<open>Python string primitives\<close>

text \<open>
  Strings are lists of 8-bit characters. The source only splits, joins, strips and
  searches text, so the functions below are the byte-level readings of the Python
  methods it calls. For text outside ASCII, \<open>str.lower\<close> and \<open>str.strip\<close> act on
  code points in Python; here bytes above 127 are left alone.
\<close>

text \<open>\<open>s.startswith(p)\<close>\<close>

fun startswith :: "string \<Rightarrow> string \<Rightarrow> bool" where
  "startswith s [] = True"
| "startswith [] (p # ps) = False"
| "startswith (c # cs) (p # ps) = (c = p \<and> startswith cs ps)"

text \<open>\<open>s.endswith(p)\<close>\<close>

definition endswith :: "string \<Rightarrow> string \<Rightarrow> bool" where
  "endswith s p = startswith (rev s) (rev p)"

text \<open>\<open>sub in s\<close>\<close>

fun py_in :: "string \<Rightarrow> string \<Rightarrow> bool" where
  "py_in sub [] = (sub = [])"
| "py_in sub (c # cs) = (startswith (c # cs) sub \<or> py_in sub cs)"

text \<open>\<open>s.lower()\<close> on ASCII letters\<close>

definition lower_char :: "char \<Rightarrow> char" where
  "lower_char c =
     (let n = (of_char c :: nat) in if 65 \<le> n \<and> n \<le> 90 then char_of (n + 32) else c)"

definition lower :: "string \<Rightarrow> string" where
  "lower s = map lower_char s"

text \<open>\<open>s.split(sep)\<close> for a one-character separator: never returns the empty list.\<close>

fun split_on :: "char \<Rightarrow> string \<Rightarrow> string list" where
  "split_on sep [] = [[]]"
| "split_on sep (c # cs) =
     (if c = sep then [] # split_on sep cs
      else (case split_on sep cs of [] \<Rightarrow> [[c]] | x # xs \<Rightarrow> (c # x) # xs))"

text \<open>\<open>sep.join(parts)\<close>\<close>

fun join :: "string \<Rightarrow> string list \<Rightarrow> string" where
  "join sep [] = []"
| "join sep [x] = x"
| "join sep (x # y # ys) = x @ sep @ join sep (y # ys)"

text \<open>
  \<open>s.strip()\<close>: the ASCII characters for which \<open>str.isspace\<close> holds are tab, line
  feed, vertical tab, form feed, carriage return, the separators 28 to 31 and space.
\<close>

definition is_space :: "char \<Rightarrow> bool" where
  "is_space c = (let n = (of_char c :: nat) in (9 \<le> n \<and> n \<le> 13) \<or> (28 \<le> n \<and> n \<le> 32))"

definition strip :: "string \<Rightarrow> string" where
  "strip s = rev (dropWhile is_space (rev (dropWhile is_space s)))"

text \<open>\<open>s.replace(old, new, 1)\<close>: only the first occurrence; an empty \<open>old\<close> matches at
  the very start.\<close>

fun replace_first :: "string \<Rightarrow> string \<Rightarrow> string \<Rightarrow> string" where
  "replace_first [] old new = (if old = [] then new else [])"
| "replace_first (c # cs) old new =
     (if startswith (c # cs) old then new @ drop (length old) (c # cs)
      else c # replace_first cs old new)"

text \<open>\<open>str(n)\<close> for an integer\<close>

fun str_nat :: "nat \<Rightarrow> string" where
  "str_nat n = (if n < 10 then [char_of (48 + n)] else str_nat (n div 10) @ [char_of (48 + n mod 10)])"

definition str_int :: "int \<Rightarrow> string" where
  "str_int i = (if i < 0 then CHR ''-'' # str_nat (nat (- i)) else str_nat (nat i))"

section \<open>hashlib.md5\<close>

text \<open>
  \<open>hashlib.md5(data).hexdigest()\<close> is the MD5 message digest of RFC 1321, printed as
  32 lower-case hexadecimal digits. It is library code, written out here so that
  fingerprints are computed rather than assumed.
\<close>

definition md5_K :: "32 word list" where
  "md5_K = [0xd76aa478, 0xe8c7b756, 0x242070db, 0xc1bdceee, 0xf57c0faf, 0x4787c62a, 0xa8304613, 0xfd469501, 0x698098d8, 0x8b44f7af, 0xffff5bb1, 0x895cd7be, 0x6b901122, 0xfd987193, 0xa679438e, 0x49b40821, 0xf61e2562, 0xc040b340, 0x265e5a51, 0xe9b6c7aa, 0xd62f105d, 0x02441453, 0xd8a1e681, 0xe7d3fbc8, 0x21e1cde6, 0xc33707d6, 0xf4d50d87, 0x455a14ed, 0xa9e3e905, 0xfcefa3f8, 0x676f02d9, 0x8d2a4c8a, 0xfffa3942, 0x8771f681, 0x6d9d6122, 0xfde5380c, 0xa4beea44, 0x4bdecfa9, 0xf6bb4b60, 0xbebfbc70, 0x289b7ec6, 0xeaa127fa, 0xd4ef3085, 0x04881d05, 0xd9d4d039, 0xe6db99e5, 0x1fa27cf8, 0xc4ac5665, 0xf4292244, 0x432aff97, 0xab9423a7, 0xfc93a039, 0x655b59c3, 0x8f0ccc92, 0xffeff47d, 0x85845dd1, 0x6fa87e4f, 0xfe2ce6e0, 0xa3014314, 0x4e0811a1, 0xf7537e82, 0xbd3af235, 0x2ad7d2bb, 0xeb86d391]"

definition md5_s :: "nat list" where
  "md5_s = [7, 12, 17, 22, 7, 12, 17, 22, 7, 12, 17, 22, 7, 12, 17, 22,
            5, 9, 14, 20, 5, 9, 14, 20, 5, 9, 14, 20, 5, 9, 14, 20,
            4, 11, 16, 23, 4, 11, 16, 23, 4, 11, 16, 23, 4, 11, 16, 23,
            6, 10, 15, 21, 6, 10, 15, 21, 6, 10, 15, 21, 6, 10, 15, 21]"

type_synonym md5_state = "32 word \<times> 32 word \<times> 32 word \<times> 32 word"

definition md5_step :: "32 word list \<Rightarrow> md5_state \<Rightarrow> nat \<Rightarrow> md5_state" where
  "md5_step m st i =
     (case st of (a, b, c, d) \<Rightarrow>
        let (f, g) =
              (if i < 16 then ((b AND c) OR (NOT b AND d), i)
               else if i < 32 then ((d AND b) OR (NOT d AND c), (5 * i + 1) mod 16)
               else if i < 48 then (b XOR c XOR d, (3 * i + 5) mod 16)
               else (c XOR (b OR NOT d), (7 * i) mod 16));
            f' = f + a + md5_K ! i + m ! g
        in (d, b + word_rotl (md5_s ! i) f', b, c))"

fun le_word :: "8 word list \<Rightarrow> 32 word" where
  "le_word [] = 0"
| "le_word (b # bs) = ucast b OR push_bit 8 (le_word bs)"

fun chunks :: "nat \<Rightarrow> 'a list \<Rightarrow> 'a list list" where
  "chunks 0 xs = []"
| "chunks (Suc n) xs = (if xs = [] then [] else take (Suc n) xs # chunks (Suc n) (drop (Suc n) xs))"

definition md5_pad :: "8 word list \<Rightarrow> 8 word list" where
  "md5_pad msg =
     (let n = length msg;
          zeros = (55 + 64 - n mod 64) mod 64;
          bits = (word_of_nat (8 * n) :: 64 word)
      in msg @ [0x80] @ replicate zeros 0 @ map (\<lambda>k. ucast (drop_bit (8 * k) bits)) [0..<8])"

definition md5_block :: "md5_state \<Rightarrow> 8 word list \<Rightarrow> md5_state" where
  "md5_block st blk =
     (let m = map le_word (chunks 4 blk)
      in case (st, foldl (md5_step m) st [0..<64]) of
           ((a0, b0, c0, d0), (a, b, c, d)) \<Rightarrow> (a0 + a, b0 + b, c0 + c, d0 + d))"

definition word_bytes_le :: "32 word \<Rightarrow> 8 word list" where
  "word_bytes_le w = map (\<lambda>k. ucast (drop_bit (8 * k) w)) [0..<4]"

definition hex_digit :: "nat \<Rightarrow> char" where
  "hex_digit n = (if n < 10 then char_of (48 + n) else char_of (87 + n))"

definition hex_byte :: "8 word \<Rightarrow> string" where
  "hex_byte b = [hex_digit (unat b div 16), hex_digit (unat b mod 16)]"

definition md5_hexdigest :: "string \<Rightarrow> string" where
  "md5_hexdigest s =
     (case foldl md5_block (0x67452301, 0xefcdab89, 0x98badcfe, 0x10325476)
             (chunks 64 (md5_pad (map (\<lambda>c. word_of_nat (of_char c)) s))) of
        (a, b, c, d) \<Rightarrow> concat (map hex_byte (concat (map word_bytes_le [a, b, c, d]))))"

section \<open>Issues, clusters and configuration\<close>

text \<open>
  An issue is a Python dictionary read through \<open>issue.get(key, default)\<close>; a key may
  be absent, which is \<open>None\<close> here, and the getters supply the defaults of the source.
\<close>

record issue =
  rule :: "string option"
  message :: "string option"
  line :: "int option"
  column :: "int option"

definition get_rule :: "issue \<Rightarrow> string" where
  "get_rule i = (case rule i of None \<Rightarrow> [] | Some r \<Rightarrow> r)"

definition get_message :: "issue \<Rightarrow> string" where
  "get_message i = (case message i of None \<Rightarrow> [] | Some m \<Rightarrow> m)"

definition get_line :: "issue \<Rightarrow> int" where
  "get_line i = (case line i of None \<Rightarrow> 0 | Some l \<Rightarrow> l)"

record issue_cluster =
  issues :: "issue list"
  start_line :: int
  end_line :: int
  fingerprint :: string

text \<open>The settings \<open>ClaudeCodeFixer.__init__\<close> reads from \<open>config['claude_code']\<close>.\<close>

record config =
  enabled :: bool
  max_workers :: int
  timeout :: int
  max_fix_attempts :: int
  cluster_distance :: int
  max_issues_per_cluster :: int
  batch_similar :: bool
  predict_simple_fixes :: bool
  custom_categories :: "(string \<times> string list) list"
  clustering_strategy :: string
  use_git_worktrees :: bool
  worktree_merge_strategy :: string
  cleanup_worktrees :: bool
  max_worktrees :: int

text \<open>The defaults of \<open>__init__\<close> and of \<open>cluster_issues\<close>.\<close>

definition default_config :: config where
  "default_config =
     \<lparr>enabled = True, max_workers = 10, timeout = 600, max_fix_attempts = 3,
      cluster_distance = 5, max_issues_per_cluster = 5, batch_similar = True,
      predict_simple_fixes = True, custom_categories = [],
      clustering_strategy = ''proximity'', use_git_worktrees = False,
      worktree_merge_strategy = ''claude'', cleanup_worktrees = True, max_worktrees = 10\<rparr>"

datatype py_exn =
    ValueError string
  | FileNotFoundError string
  | TimeoutExpired string
  | OSError string
  | SameFileError string
  | CalledProcessError string
  | KeyError string

text \<open>\<open>str(e)\<close>\<close>

fun str_exn :: "py_exn \<Rightarrow> string" where
  "str_exn (ValueError m) = m"
| "str_exn (FileNotFoundError m) = m"
| "str_exn (TimeoutExpired m) = m"
| "str_exn (OSError m) = m"
| "str_exn (SameFileError m) = m"
| "str_exn (CalledProcessError m) = m"
| "str_exn (KeyError m) = m"

section \<open>Issue Clusterer\<close>

definition get_issue_fingerprint :: "issue \<Rightarrow> string" where
  "get_issue_fingerprint i = get_rule i @ '':'' @ str_int (get_line i)"

definition get_cluster_fingerprint :: "issue list \<Rightarrow> string" where
  "get_cluster_fingerprint is =
     take 8 (md5_hexdigest (join ''|'' (map get_issue_fingerprint is)))"

text \<open>\<open>min(lines)\<close> and \<open>max(lines)\<close> raise \<open>ValueError\<close> on an empty list.\<close>

definition py_min :: "int list \<Rightarrow> py_exn + int" where
  "py_min ls = (case ls of [] \<Rightarrow> Inl (ValueError ''min() arg is an empty sequence'')
                | l # rest \<Rightarrow> Inr (fold min rest l))"

definition py_max :: "int list \<Rightarrow> py_exn + int" where
  "py_max ls = (case ls of [] \<Rightarrow> Inl (ValueError ''max() arg is an empty sequence'')
                | l # rest \<Rightarrow> Inr (fold max rest l))"

definition create_cluster :: "issue list \<Rightarrow> py_exn + issue_cluster" where
  "create_cluster is =
     (let lines = map get_line is in
      case py_min lines of Inl e \<Rightarrow> Inl e
      | Inr lo \<Rightarrow>
          (case py_max lines of Inl e \<Rightarrow> Inl e
           | Inr hi \<Rightarrow>
               Inr \<lparr>issues = is, start_line = lo, end_line = hi,
                    fingerprint = get_cluster_fingerprint is\<rparr>))"

text \<open>
  The three strategies run the same loop over issues sorted by line; they differ only in
  the \<open>elif\<close> test that lets the current cluster take one more issue.
\<close>

definition extend_proximity :: "config \<Rightarrow> issue list \<Rightarrow> issue \<Rightarrow> bool" where
  "extend_proximity cfg current_cluster i =
     (get_line i - get_line (last current_cluster) \<le> cluster_distance cfg
      \<and> int (length current_cluster) < max_issues_per_cluster cfg)"

definition extend_similarity :: "config \<Rightarrow> issue list \<Rightarrow> issue \<Rightarrow> bool" where
  "extend_similarity cfg current_cluster i =
     (int (length current_cluster) < max_issues_per_cluster cfg)"

fun cluster_loop ::
  "(issue list \<Rightarrow> issue \<Rightarrow> bool) \<Rightarrow> issue list \<Rightarrow> issue_cluster list \<Rightarrow> issue list
     \<Rightarrow> py_exn + (issue_cluster list \<times> issue list)" where
  "cluster_loop can_extend [] clusters current_cluster = Inr (clusters, current_cluster)"
| "cluster_loop can_extend (i # rest) clusters current_cluster =
     (if current_cluster = [] then cluster_loop can_extend rest clusters (current_cluster @ [i])
      else if can_extend current_cluster i
        then cluster_loop can_extend rest clusters (current_cluster @ [i])
      else (case create_cluster current_cluster of Inl e \<Rightarrow> Inl e
            | Inr c \<Rightarrow> cluster_loop can_extend rest (clusters @ [c]) [i]))"

text \<open>\<open>if current_cluster: clusters.append(self._create_cluster(current_cluster))\<close>\<close>

definition flush_cluster :: "issue_cluster list \<Rightarrow> issue list \<Rightarrow> py_exn + issue_cluster list" where
  "flush_cluster clusters current_cluster =
     (if current_cluster \<noteq> []
      then (case create_cluster current_cluster of Inl e \<Rightarrow> Inl e
            | Inr c \<Rightarrow> Inr (clusters @ [c]))
      else Inr clusters)"

text \<open>\<open>sorted(issues, key=lambda x: x.get('line', 0))\<close> is stable, as \<open>sort_key\<close> is.\<close>

definition cluster_by_proximity :: "config \<Rightarrow> issue list \<Rightarrow> py_exn + issue_cluster list" where
  "cluster_by_proximity cfg is =
     (case cluster_loop (extend_proximity cfg) (sort_key get_line is) [] [] of
        Inl e \<Rightarrow> Inl e
      | Inr (clusters, current_cluster) \<Rightarrow> flush_cluster clusters current_cluster)"

text \<open>\<open>any(keyword in rule or keyword in message for keyword in keywords)\<close>\<close>

definition any_keyword :: "string list \<Rightarrow> string \<Rightarrow> string \<Rightarrow> bool" where
  "any_keyword keywords r m = list_ex (\<lambda>keyword. py_in keyword r \<or> py_in keyword m) keywords"

text \<open>
  The first custom category with a pattern whose lower-case form occurs in the rule or
  the message. Entries of \<open>custom_issue_categories\<close> that are not lists of strings are
  skipped by the source and are left out of \<open>custom_categories\<close>.
\<close>

fun custom_category :: "(string \<times> string list) list \<Rightarrow> string \<Rightarrow> string \<Rightarrow> string option" where
  "custom_category [] r m = None"
| "custom_category ((category_name, patterns) # rest) r m =
     (if list_ex (\<lambda>pattern. py_in (lower pattern) r \<or> py_in (lower pattern) m) patterns
      then Some category_name else custom_category rest r m)"

definition get_issue_category :: "config \<Rightarrow> issue \<Rightarrow> string" where
  "get_issue_category cfg i =
     (let r = lower (get_rule i); m = lower (get_message i) in
      case custom_category (custom_categories cfg) r m of
        Some category_name \<Rightarrow> category_name
      | None \<Rightarrow>
          if any_keyword [''import'', ''f401'', ''e402'', ''isort''] r m then ''imports''
          else if any_keyword [''type'', ''reportargumenttype'', ''reportassignmenttype'',
                  ''reportreturntype'', ''reportmissingtypeargument'', ''annotation'',
                  ''typing''] r m then ''types''
          else if any_keyword [''f821'', ''undefined'', ''nameerror'', ''unbound''] r m
            then ''undefined''
          else if any_keyword [''f841'', ''unused'', ''assigned but never used''] r m
            then ''unused''
          else if any_keyword [''d'', ''docstring'', ''missing docstring'', ''d100'', ''d101'',
                  ''d102''] r m then ''docstrings''
          else if any_keyword [''syntax'', ''indent'', ''whitespace'', ''format'', ''e1'', ''e2'',
                  ''e3'', ''w''] r m then ''formatting''
          else if any_keyword [''s'', ''security'', ''bandit'', ''unsafe''] r m then ''security''
          else if any_keyword [''c901'', ''complex'', ''cyclomatic'', ''mccabe''] r m
            then ''complexity''
          else (case r of [] \<Rightarrow> ''other'' | c # _ \<Rightarrow> ''rule_'' @ [lower_char c]))"

text \<open>
  \<open>issue_groups\<close> is a dictionary filled in input order; its items come back in the
  order in which the categories were first seen.
\<close>

fun add_to_group :: "(string \<times> issue list) list \<Rightarrow> string \<Rightarrow> issue \<Rightarrow> (string \<times> issue list) list" where
  "add_to_group [] category i = [(category, [i])]"
| "add_to_group ((k, v) # groups) category i =
     (if k = category then (k, v @ [i]) # groups else (k, v) # add_to_group groups category i)"

definition group_issues :: "config \<Rightarrow> issue list \<Rightarrow> (string \<times> issue list) list" where
  "group_issues cfg is = foldl (\<lambda>groups i. add_to_group groups (get_issue_category cfg i) i) [] is"

fun category_loop ::
  "(issue list \<Rightarrow> issue \<Rightarrow> bool) \<Rightarrow> (string \<times> issue list) list \<Rightarrow> issue_cluster list
     \<Rightarrow> py_exn + issue_cluster list" where
  "category_loop can_extend [] clusters = Inr clusters"
| "category_loop can_extend ((category, category_issues) # rest) clusters =
     (case cluster_loop can_extend (sort_key get_line category_issues) clusters [] of
        Inl e \<Rightarrow> Inl e
      | Inr (clusters', current_cluster) \<Rightarrow>
          (case flush_cluster clusters' current_cluster of Inl e \<Rightarrow> Inl e
           | Inr clusters'' \<Rightarrow> category_loop can_extend rest clusters''))"

definition cluster_by_similarity :: "config \<Rightarrow> issue list \<Rightarrow> py_exn + issue_cluster list" where
  "cluster_by_similarity cfg is = category_loop (extend_similarity cfg) (group_issues cfg is) []"

definition cluster_hybrid :: "config \<Rightarrow> issue list \<Rightarrow> py_exn + issue_cluster list" where
  "cluster_hybrid cfg is = category_loop (extend_proximity cfg) (group_issues cfg is) []"

definition singleton_cluster :: "issue \<Rightarrow> issue_cluster" where
  "singleton_cluster i =
     \<lparr>issues = [i], start_line = get_line i, end_line = get_line i,
      fingerprint = get_issue_fingerprint i\<rparr>"

definition cluster_issues :: "config \<Rightarrow> issue list \<Rightarrow> py_exn + issue_cluster list" where
  "cluster_issues cfg is =
     (if \<not> batch_similar cfg then Inr (map singleton_cluster is)
      else if clustering_strategy cfg = ''similarity'' then cluster_by_similarity cfg is
      else if clustering_strategy cfg = ''hybrid'' then cluster_hybrid cfg is
      else cluster_by_proximity cfg is)"

text \<open>Consecutive members of a cluster are at most \<open>d\<close> lines apart.\<close>

definition gaps_within :: "int \<Rightarrow> issue list \<Rightarrow> bool" where
  "gaps_within d cur = (\<forall>k. Suc k < length cur \<longrightarrow> get_line (cur ! Suc k) - get_line (cur ! k) \<le> d)"

text \<open>A sample issue, as a linter reports it.\<close>

definition E501 :: "int \<Rightarrow> issue" where
  "E501 l = \<lparr>rule = Some ''E501'', message = Some ''Line too long'', line = Some l, column = None\<rparr>"



section \<open>Simple-Fix Predictor\<close>

text \<open>The \<open>F821\<close> table of \<open>simple_fix_patterns\<close>: undefined name to import statement.\<close>

definition f821_imports :: "(string \<times> string) list" where
  "f821_imports =
     [(''json'', ''import json''),
      (''datetime'', ''from datetime import datetime''),
      (''logging'', ''import logging''),
      (''os'', ''import os''),
      (''sys'', ''import sys''),
      (''Path'', ''from pathlib import Path''),
      (''List'', ''from typing import List''),
      (''Dict'', ''from typing import Dict''),
      (''Optional'', ''from typing import Optional'')]"

text \<open>The line feed, and the two docstring delimiters (three double or single quotes).\<close>

definition newline :: char where
  "newline = CHR 0x0A"

definition triple_double :: string where
  "triple_double = replicate 3 (CHR 0x22)"

definition triple_single :: string where
  "triple_single = replicate 3 (CHR 0x27)"

definition is_import_line :: "string \<Rightarrow> bool" where
  "is_import_line l = (startswith (strip l) ''import '' \<or> startswith (strip l) ''from '')"

text \<open>
  The inner \<open>while\<close> of \<open>_apply_import_fix\<close>: from \<open>insert_pos\<close> on, step over
  import lines and blank lines. The first argument is \<open>lines[insert_pos:]\<close>.
\<close>

fun skip_imports :: "string list \<Rightarrow> nat \<Rightarrow> nat" where
  "skip_imports [] insert_pos = insert_pos"
| "skip_imports (l # rest) insert_pos =
     (if is_import_line l \<or> strip l = [] then skip_imports rest (insert_pos + 1)
      else insert_pos)"

text \<open>
  The \<open>for i, line in enumerate(lines)\<close> loop, run on \<open>lines[i:]\<close>; the result is
  \<open>insert_pos\<close> when the loop ends or breaks.
\<close>

fun find_insert_pos :: "string list \<Rightarrow> nat \<Rightarrow> bool \<Rightarrow> string option \<Rightarrow> nat \<Rightarrow> nat" where
  "find_insert_pos [] i in_docstring docstring_char insert_pos = insert_pos"
| "find_insert_pos (l # rest) i in_docstring docstring_char insert_pos =
     (let stripped = strip l in
      if \<not> in_docstring \<and> (startswith stripped triple_double \<or> startswith stripped triple_single)
      then
        (let dc = (if startswith stripped triple_double then triple_double else triple_single) in
         find_insert_pos rest (i + 1) (\<not> (endswith stripped dc \<and> length stripped > 3))
           (Some dc) insert_pos)
      else if in_docstring
              \<and> (case docstring_char of None \<Rightarrow> False | Some dc \<Rightarrow> dc \<noteq> [] \<and> endswith stripped dc)
      then find_insert_pos rest (i + 1) False docstring_char (i + 1)
      else if \<not> in_docstring \<and> stripped \<noteq> [] \<and> \<not> startswith stripped ''#''
      then (if startswith stripped ''import '' \<or> startswith stripped ''from ''
            then skip_imports rest (i + 1) else i)
      else find_insert_pos rest (i + 1) in_docstring docstring_char insert_pos)"

text \<open>\<open>lines.insert(pos, x)\<close>; a position past the end appends.\<close>

definition list_insert :: "'a list \<Rightarrow> nat \<Rightarrow> 'a \<Rightarrow> 'a list" where
  "list_insert xs pos x = take pos xs @ [x] @ drop pos xs"

definition apply_import_fix :: "string \<Rightarrow> string \<Rightarrow> string" where
  "apply_import_fix content import_stmt =
     (let lines = split_on newline content;
          insert_pos = find_insert_pos lines 0 False None 0
      in join [newline] (list_insert lines insert_pos import_stmt))"

text \<open>
  \<open>predict_simple_fix\<close>. \<open>message.split("`")[1]\<close> is only reached when the message
  holds a backquote, so the split has a second part; \<open>line.split('=')[0]\<close> is the text
  before the first equals sign.
\<close>

definition predict_simple_fix :: "config \<Rightarrow> issue \<Rightarrow> string \<Rightarrow> string option" where
  "predict_simple_fix cfg i file_content =
     (if \<not> predict_simple_fixes cfg then None
      else if get_rule i = ''F821'' then
        (if py_in ''Undefined name `'' (get_message i) then
           (case split_on (CHR ''`'') (get_message i) of
              _ # name # _ \<Rightarrow>
                (case map_of f821_imports name of
                   Some import_stmt \<Rightarrow>
                     if \<not> py_in import_stmt file_content
                     then Some (apply_import_fix file_content import_stmt) else None
                 | None \<Rightarrow> None)
            | _ \<Rightarrow> None)
         else None)
      else if get_rule i = ''F841'' then
        (let line_num = get_line i - 1;
             lines = split_on newline file_content
         in if 0 \<le> line_num \<and> line_num < int (length lines) then
              (let l = lines ! nat line_num in
               if py_in '' = '' l then
                 (let var_name = strip (hd (split_on (CHR ''='') l)) in
                  if \<not> startswith var_name ''_''
                  then Some (join [newline]
                               (lines[nat line_num := replace_first l var_name (''_'' @ var_name)]))
                  else None)
               else None)
            else None)
      else None)"

text \<open>Sample file contents and issues for the predictor.\<close>

definition sample_source :: string where
  "sample_source = join [newline] [''import os'', '''', ''def f():'', ''    x = 1'', ''    return json.dumps({})'']"

definition undefined_json :: issue where
  "undefined_json = \<lparr>rule = Some ''F821'', message = Some ''Undefined name `json`'',
     line = Some 5, column = Some 12\<rparr>"

definition unused_x :: issue where
  "unused_x = \<lparr>rule = Some ''F841'',
     message = Some ''Local variable `x` is assigned to but never used'',
     line = Some 4, column = Some 5\<rparr>"

section \<open>Files and subprocesses\<close>

text \<open>
  The file system as the code sees it: regular files by path, each with its text.
  Reading a missing file raises; writing and copying onto a path succeed (no
  permission or disk failure is modelled).
\<close>

type_synonym files = "string \<rightharpoonup> string"

definition read_text :: "files \<Rightarrow> string \<Rightarrow> py_exn + string" where
  "read_text fs p = (case fs p of None \<Rightarrow> Inl (FileNotFoundError p) | Some c \<Rightarrow> Inr c)"

definition write_text :: "files \<Rightarrow> string \<Rightarrow> string \<Rightarrow> files" where
  "write_text fs p c = fs(p \<mapsto> c)"

text \<open>\<open>shutil.copy2(src, dst)\<close>\<close>

definition copy2 :: "files \<Rightarrow> string \<Rightarrow> string \<Rightarrow> py_exn + files" where
  "copy2 fs src dst =
     (case fs src of None \<Rightarrow> Inl (FileNotFoundError src)
      | Some c \<Rightarrow> if src = dst then Inl (SameFileError src) else Inr (fs(dst \<mapsto> c)))"

text \<open>\<open>Path(p).name\<close>, the last component, and \<open>dir / name\<close>.\<close>

definition path_name :: "string \<Rightarrow> string" where
  "path_name p = last (split_on (CHR ''/'') p)"

definition path_join :: "string \<Rightarrow> string \<Rightarrow> string" where
  "path_join d n = d @ ''/'' @ n"

text \<open>What \<open>subprocess.run\<close> returns when the child exits.\<close>

record completed =
  returncode :: int
  stdout :: string
  stderr :: string

section \<open>AutoFixer\<close>

text \<open>
  The world outside \<open>AutoFixer\<close>: running the linter's fix command on the current
  files either raises (\<open>TimeoutExpired\<close> after 30 seconds, or the command cannot be
  started) or completes, and leaves the files as the command wrote them;
  \<open>difflib.unified_diff\<close> is library code.
\<close>

record autofix_env =
  run_fix :: "string list \<Rightarrow> files \<Rightarrow> (py_exn + completed) \<times> files"
  unified_diff :: "string \<Rightarrow> string \<Rightarrow> string \<Rightarrow> string"

record auto_fix_result =
  fixed :: bool
  fix_message :: string
  fix_error :: "string option"
  fix_diff :: "string option"
  fix_backup :: "string option"
  fix_returncode :: "int option"

text \<open>
  \<open>create_backup\<close>: \<open>backup_dir\<close> is the fixer's directory, \<open>now_ms\<close> is
  \<open>int(time.time() * 1000)\<close>. Any exception gives \<open>None\<close>.
\<close>

definition create_backup :: "string \<Rightarrow> string \<Rightarrow> int \<Rightarrow> files \<Rightarrow> string option \<times> files" where
  "create_backup backup_dir file_path now_ms fs =
     (if fs file_path = None then (None, fs)
      else
        (let backup_name = path_name file_path @ ''.'' @ str_int now_ms @ ''.bak'';
             backup_path = path_join backup_dir backup_name
         in case copy2 fs file_path backup_path of
              Inl e \<Rightarrow> (None, fs)
            | Inr fs' \<Rightarrow> (Some backup_path, fs')))"

text \<open>The \<open>try\<close> block of \<open>run_auto_fix\<close>.\<close>

definition run_auto_fix_body ::
  "autofix_env \<Rightarrow> string option \<Rightarrow> string \<Rightarrow> string \<Rightarrow> string list \<Rightarrow> files
     \<Rightarrow> (py_exn + auto_fix_result) \<times> files" where
  "run_auto_fix_body E backup_path file_path linter fix_cmd fs =
     (case read_text fs file_path of
        Inl e \<Rightarrow> (Inl e, fs)
      | Inr original_content \<Rightarrow>
          (case run_fix E (fix_cmd @ [file_path]) fs of
             (Inl e, fs') \<Rightarrow> (Inl e, fs')
           | (Inr result, fs') \<Rightarrow>
               (case read_text fs' file_path of
                  Inl e \<Rightarrow> (Inl e, fs')
                | Inr fixed_content \<Rightarrow>
                    if original_content = fixed_content
                    then (Inr \<lparr>fixed = False, fix_message = ''No fixes applied'',
                               fix_error = None, fix_diff = None, fix_backup = backup_path,
                               fix_returncode = None\<rparr>, fs')
                    else (Inr \<lparr>fixed = True,
                               fix_message = ''Auto-fixed '' @ file_path @ '' with '' @ linter,
                               fix_error = None,
                               fix_diff = Some (unified_diff E file_path original_content fixed_content),
                               fix_backup = backup_path,
                               fix_returncode = Some (returncode result)\<rparr>, fs'))))"

text \<open>
  The two \<open>except\<close> clauses: restore from the backup if there is one and it exists,
  then report. An exception raised by the copy itself leaves \<open>run_auto_fix\<close>.
\<close>

definition restore_on_error ::
  "string option \<Rightarrow> string \<Rightarrow> py_exn \<Rightarrow> files \<Rightarrow> (py_exn + auto_fix_result) \<times> files" where
  "restore_on_error backup_path file_path e fs =
     (let report =
            (case e of
               TimeoutExpired _ \<Rightarrow>
                 \<lparr>fixed = False, fix_message = ''Auto-fix timed out'',
                  fix_error = Some ''Timeout after 30 seconds'', fix_diff = None,
                  fix_backup = None, fix_returncode = None\<rparr>
             | _ \<Rightarrow>
                 \<lparr>fixed = False, fix_message = ''Auto-fix failed'',
                  fix_error = Some (str_exn e), fix_diff = None,
                  fix_backup = None, fix_returncode = None\<rparr>)
      in case backup_path of
           None \<Rightarrow> (Inr report, fs)
         | Some bp \<Rightarrow>
             if fs bp \<noteq> None
             then (case copy2 fs bp file_path of
                     Inl e' \<Rightarrow> (Inl e', fs)
                   | Inr fs' \<Rightarrow> (Inr report, fs'))
             else (Inr report, fs))"

definition run_auto_fix ::
  "autofix_env \<Rightarrow> string \<Rightarrow> int \<Rightarrow> string \<Rightarrow> string \<Rightarrow> string list \<Rightarrow> files
     \<Rightarrow> (py_exn + auto_fix_result) \<times> files" where
  "run_auto_fix E backup_dir now_ms file_path linter fix_cmd fs =
     (case create_backup backup_dir file_path now_ms fs of
        (backup_path, fs1) \<Rightarrow>
          (case run_auto_fix_body E backup_path file_path linter fix_cmd fs1 of
             (Inl e, fs2) \<Rightarrow> restore_on_error backup_path file_path e fs2
           | (Inr r, fs2) \<Rightarrow> (Inr r, fs2)))"

text \<open>A fix command that garbles the file and then hangs until the timeout.\<close>

definition hanging_fix :: autofix_env where
  "hanging_fix =
     \<lparr>run_fix = (\<lambda>argv fs. (Inl (TimeoutExpired ''Command timed out after 30 seconds''),
                              fs(last argv \<mapsto> ''x = ''))),
      unified_diff = (\<lambda>p a b. [])\<rparr>"

definition sample_files :: files where
  "sample_files = [''src/a.py'' \<mapsto> ''x = 1'']"

definition sample_backup :: string where
  "sample_backup = ''/home/u/.claude/quality-backups/a.py.1000.bak''"

section \<open>ClaudeCodeFixer: the world it acts on\<close>

text \<open>
  A call of \<open>subprocess.run\<close>: the argument vector, the working directory, the text
  piped to standard input and the timeout, where the call gives them.
\<close>

record command =
  argv :: "string list"
  cwd :: "string option"
  cmd_input :: "string option"
  time_limit :: "int option"

text \<open>
  What the fixer does to the outside, in order: every subprocess it runs, with what
  came back (an exception or the completed process), the worker pool it creates and
  the tasks it submits (the task's function name and its cluster).
\<close>

datatype event =
    Subprocess command "py_exn + completed"
  | ThreadPoolExecutor int
  | Submit string issue_cluster

text \<open>
  The collaborators: \<open>subprocess_run\<close> is the operating system running git or the
  agent on the current files; it raises (\<open>TimeoutExpired\<close>, \<open>FileNotFoundError\<close>, ...) or
  completes, and leaves the files as the child wrote them. \<open>mkdir_parents\<close> is
  \<open>Path.mkdir(parents=True, exist_ok=True)\<close>, which may raise. \<open>uuid4_hex n\<close> is the
  hexadecimal form of the \<open>n\<close>-th UUID drawn, \<open>getcwd\<close> is \<open>Path.cwd()\<close>.
\<close>

record fixer_env =
  subprocess_run :: "command \<Rightarrow> files \<Rightarrow> (py_exn + completed) \<times> files"
  mkdir_parents :: "string \<Rightarrow> files \<Rightarrow> py_exn option"
  uuid4_hex :: "nat \<Rightarrow> string"
  getcwd :: string

text \<open>
  The mutable state: the files, \<open>self._active_worktrees\<close>, \<open>self._fix_attempts\<close>,
  the number of UUIDs drawn so far, and the events so far.
\<close>

record world =
  disk :: files
  active_worktrees :: "string list"
  fix_attempts :: "string \<rightharpoonup> int"
  uuid_count :: nat
  trace :: "event list"

definition run :: "fixer_env \<Rightarrow> command \<Rightarrow> world \<Rightarrow> (py_exn + completed) \<times> world" where
  "run E cmd w =
     (case subprocess_run E cmd (disk w) of
        (out, fs') \<Rightarrow> (out, w\<lparr>disk := fs', trace := trace w @ [Subprocess cmd out]\<rparr>))"

text \<open>\<open>Path(p).parent\<close> and \<open>Path(p).relative_to(base)\<close>, on paths written with single
  slashes.\<close>

definition path_parent :: "string \<Rightarrow> string" where
  "path_parent p =
     (case butlast (split_on (CHR ''/'') p) of
        [] \<Rightarrow> ''.''
      | ps \<Rightarrow> (if join ''/'' ps = [] then ''/'' else join ''/'' ps))"

definition relative_to :: "string \<Rightarrow> string \<Rightarrow> py_exn + string" where
  "relative_to p base =
     (if p = base then Inr ''.''
      else if startswith p (base @ ''/'') then Inr (drop (length base + 1) p)
      else Inl (ValueError (p @ '' is not in the subpath of '' @ base)))"

text \<open>
  \<open>shutil.rmtree(path, ignore_errors=True)\<close> removes every file below the directory.
  On a path that is not a directory it does nothing, so the \<open>exists()\<close> test in front of
  it in \<open>_cleanup_worktree\<close> changes nothing.
\<close>

definition rmtree :: "files \<Rightarrow> string \<Rightarrow> files" where
  "rmtree fs p = (\<lambda>q. if startswith q (p @ ''/'') then None else fs q)"

text \<open>The dictionary a cluster fix attempt returns; absent keys are \<open>None\<close>.\<close>

record cluster_result =
  cr_success :: bool
  cr_cluster :: issue_cluster
  cr_error :: "string option"
  cr_fixed_content :: "string option"
  cr_patch :: "string option"
  cr_worktree_path :: "string option"
  cr_rel_path :: "string option"

definition failure_result :: "issue_cluster \<Rightarrow> string \<Rightarrow> cluster_result" where
  "failure_result cluster err =
     \<lparr>cr_success = False, cr_cluster = cluster, cr_error = Some err, cr_fixed_content = None,
      cr_patch = None, cr_worktree_path = None, cr_rel_path = None\<rparr>"

section \<open>Isolated Workspace Manager\<close>

definition get_git_root :: "fixer_env \<Rightarrow> world \<Rightarrow> (py_exn + string option) \<times> world" where
  "get_git_root E w =
     (case run E \<lparr>argv = [''git'', ''rev-parse'', ''--show-toplevel''], cwd = None,
                  cmd_input = None, time_limit = None\<rparr> w of
        (Inl (CalledProcessError m), w') \<Rightarrow> (Inr None, w')
      | (Inl e, w') \<Rightarrow> (Inl e, w')
      | (Inr res, w') \<Rightarrow>
          if returncode res \<noteq> 0 then (Inr None, w') else (Inr (Some (strip (stdout res))), w'))"

definition worktree_add :: "string \<Rightarrow> string \<Rightarrow> command" where
  "worktree_add base_path worktree_path =
     \<lparr>argv = [''git'', ''worktree'', ''add'', ''--detach'', worktree_path], cwd = Some base_path,
      cmd_input = None, time_limit = None\<rparr>"

definition worktree_remove :: "string \<Rightarrow> command" where
  "worktree_remove worktree_path =
     \<lparr>argv = [''git'', ''worktree'', ''remove'', ''--force'', worktree_path], cwd = None,
      cmd_input = None, time_limit = None\<rparr>"

text \<open>\<open>_create_worktree_for_cluster\<close>: every exception inside is caught and gives \<open>None\<close>.\<close>

definition create_worktree_for_cluster ::
  "fixer_env \<Rightarrow> string \<Rightarrow> issue_cluster \<Rightarrow> world \<Rightarrow> string option \<times> world" where
  "create_worktree_for_cluster E base_path cluster w =
     (let worktree_name =
            ''linter-fix-'' @ fingerprint cluster @ ''-'' @ take 8 (uuid4_hex E (uuid_count w));
          w0 = w\<lparr>uuid_count := uuid_count w + 1\<rparr>;
          claude_dir = path_join (path_join base_path ''.claude'') ''worktrees'';
          worktree_path = path_join claude_dir worktree_name
      in case mkdir_parents E claude_dir (disk w0) of
           Some e \<Rightarrow> (None, w0)
         | None \<Rightarrow>
             (case run E (worktree_add base_path worktree_path) w0 of
                (Inl e, w1) \<Rightarrow> (None, w1)
              | (Inr res, w1) \<Rightarrow>
                  if returncode res \<noteq> 0 then (None, w1)
                  else (Some worktree_path,
                        w1\<lparr>active_worktrees := active_worktrees w1 @ [worktree_path]\<rparr>)))"

text \<open>\<open>_cleanup_worktree\<close>: an exception of the subprocess is caught and only logged.\<close>

definition cleanup_worktree :: "fixer_env \<Rightarrow> string \<Rightarrow> world \<Rightarrow> world" where
  "cleanup_worktree E worktree_path w =
     (let w0 = (if worktree_path \<in> set (active_worktrees w)
                then w\<lparr>active_worktrees := remove1 worktree_path (active_worktrees w)\<rparr>
                else w)
      in case run E (worktree_remove worktree_path) w0 of
           (Inl e, w1) \<Rightarrow> w1
         | (Inr res, w1) \<Rightarrow> w1\<lparr>disk := rmtree (disk w1) worktree_path\<rparr>)"

text \<open>\<open>cleanup_all_worktrees\<close> walks a copy of the registry, then clears it.\<close>

definition cleanup_all_worktrees :: "fixer_env \<Rightarrow> world \<Rightarrow> world" where
  "cleanup_all_worktrees E w =
     (foldl (\<lambda>w' worktree. cleanup_worktree E worktree w') w (active_worktrees w))
       \<lparr>active_worktrees := []\<rparr>"

section \<open>Parallel Fix Executor\<close>

definition issue_line_text :: "issue \<Rightarrow> string" where
  "issue_line_text i =
     ''Line '' @ str_int (get_line i) @ '': ['' @ get_rule i @ ''] '' @ get_message i"

text \<open>\<open>_create_cluster_prompt\<close>; outside the current directory the path is cut down to
  the file name.\<close>

definition create_cluster_prompt :: "fixer_env \<Rightarrow> string \<Rightarrow> issue_cluster \<Rightarrow> string \<Rightarrow> string" where
  "create_cluster_prompt E file_path cluster content =
     (let relative_path = (case relative_to file_path (getcwd E) of
                             Inr r \<Rightarrow> r | Inl e \<Rightarrow> path_name file_path)
      in ''Fix the following '' @ str_int (int (length (issues cluster)))
           @ '' linting issues in '' @ relative_path @ '':'' @ [newline, newline]
           @ concat (map (\<lambda>i. issue_line_text i @ [newline]) (issues cluster))
           @ join [newline]
               ['''', '''', ''Requirements:'',
                ''- Fix ONLY the issues listed above'',
                ''- Maintain code style and functionality'',
                ''- Make minimal changes'',
                ''- Consider the full file context when making fixes''])"

definition claude_fix :: "config \<Rightarrow> string \<Rightarrow> string \<Rightarrow> command" where
  "claude_fix cfg prompt file_path =
     \<lparr>argv = [''claude'', ''-p'', prompt, ''--dangerously-skip-permissions'',
              ''--allowedTools'', ''Read,Edit,MultiEdit'', ''--output-format'', ''text''],
      cwd = Some (path_parent file_path), cmd_input = None, time_limit = Some (timeout cfg)\<rparr>"

text \<open>
  \<open>fix_cluster_with_claude\<close>: the whole body is inside \<open>try\<close>; any exception becomes a
  failed result carrying \<open>str(e)\<close>. On exit code 0 the fixed content is read back from
  \<open>file_path\<close>. \<open>result.stderr or result.stdout\<close> is the first non-empty of the two.
\<close>

definition fix_cluster_with_claude ::
  "fixer_env \<Rightarrow> config \<Rightarrow> string \<Rightarrow> issue_cluster \<Rightarrow> string \<Rightarrow> world \<Rightarrow> cluster_result \<times> world" where
  "fix_cluster_with_claude E cfg file_path cluster file_content w =
     (let prompt = create_cluster_prompt E file_path cluster file_content in
      case run E (claude_fix cfg prompt file_path) w of
        (Inl e, w1) \<Rightarrow> (failure_result cluster (str_exn e), w1)
      | (Inr result, w1) \<Rightarrow>
          if returncode result = 0 then
            (case read_text (disk w1) file_path of
               Inl e \<Rightarrow> (failure_result cluster (str_exn e), w1)
             | Inr fixed_content \<Rightarrow>
                 (\<lparr>cr_success = True, cr_cluster = cluster, cr_error = None,
                   cr_fixed_content = Some fixed_content, cr_patch = None,
                   cr_worktree_path = None, cr_rel_path = None\<rparr>, w1))
          else (failure_result cluster
                  (if stderr result \<noteq> [] then stderr result else stdout result), w1))"

definition git_add :: "string \<Rightarrow> string \<Rightarrow> command" where
  "git_add rel_path worktree_path =
     \<lparr>argv = [''git'', ''add'', rel_path], cwd = Some worktree_path, cmd_input = None,
      time_limit = None\<rparr>"

definition git_diff_head :: "string \<Rightarrow> string \<Rightarrow> command" where
  "git_diff_head rel_path worktree_path =
     \<lparr>argv = [''git'', ''diff'', ''HEAD'', rel_path], cwd = Some worktree_path, cmd_input = None,
      time_limit = None\<rparr>"

text \<open>
  The \<open>try\<close> block of \<open>fix_cluster_with_worktree\<close>, entered with the worktree
  created. \<open>Inl\<close> is an exception on its way to the \<open>except\<close> clause.
\<close>

definition worktree_fix_body ::
  "fixer_env \<Rightarrow> config \<Rightarrow> string \<Rightarrow> issue_cluster \<Rightarrow> string \<Rightarrow> (issue \<times> string) list \<Rightarrow> string
     \<Rightarrow> world \<Rightarrow> (py_exn + cluster_result) \<times> world" where
  "worktree_fix_body E cfg file_path cluster base_path predicted_fixes worktree_path w =
     (case relative_to file_path base_path of
        Inl e \<Rightarrow> (Inl e, w)
      | Inr rel_path \<Rightarrow>
          (let worktree_file = path_join worktree_path rel_path in
           if disk w worktree_file = None then
             (Inr (failure_result cluster (''File not found in worktree: '' @ rel_path)),
              cleanup_worktree E worktree_path w)
           else
             (case read_text (disk w) worktree_file of
                Inl e \<Rightarrow> (Inl e, w)
              | Inr content0 \<Rightarrow>
                  (let staged =
                         (if predicted_fixes \<noteq> [] then
                            (let worktree_content = snd (last predicted_fixes);
                                 w1 = w\<lparr>disk := write_text (disk w) worktree_file worktree_content\<rparr>
                             in case run E (git_add rel_path worktree_path) w1 of
                                  (Inl e, w2) \<Rightarrow> (Inl e, w2)
                                | (Inr r, w2) \<Rightarrow> (Inr worktree_content, w2))
                          else (Inr content0, w))
                   in case staged of
                        (Inl e, w2) \<Rightarrow> (Inl e, w2)
                      | (Inr worktree_content, w2) \<Rightarrow>
                          (case fix_cluster_with_claude E cfg worktree_file cluster worktree_content w2 of
                             (result, w3) \<Rightarrow>
                               if cr_success result then
                                 (case run E (git_diff_head rel_path worktree_path) w3 of
                                    (Inl e, w4) \<Rightarrow> (Inl e, w4)
                                  | (Inr patch_result, w4) \<Rightarrow>
                                      (Inr (result\<lparr>cr_patch := Some (stdout patch_result),
                                                   cr_worktree_path := Some worktree_path,
                                                   cr_rel_path := Some rel_path\<rparr>), w4))
                               else (Inr result, w3))))))"

text \<open>
  \<open>fix_cluster_with_worktree\<close>: no worktree, no attempt; an exception of the body
  cleans the worktree up and becomes a failed result.
\<close>

definition fix_cluster_with_worktree ::
  "fixer_env \<Rightarrow> config \<Rightarrow> string \<Rightarrow> issue_cluster \<Rightarrow> string \<Rightarrow> (issue \<times> string) list
     \<Rightarrow> world \<Rightarrow> cluster_result \<times> world" where
  "fix_cluster_with_worktree E cfg file_path cluster base_path predicted_fixes w =
     (case create_worktree_for_cluster E base_path cluster w of
        (None, w1) \<Rightarrow> (failure_result cluster ''Failed to create worktree'', w1)
      | (Some worktree_path, w1) \<Rightarrow>
          (case worktree_fix_body E cfg file_path cluster base_path predicted_fixes worktree_path w1 of
             (Inl e, w2) \<Rightarrow> (failure_result cluster (str_exn e), cleanup_worktree E worktree_path w2)
           | (Inr result, w2) \<Rightarrow> (result, w2)))"

section \<open>Merge Engine\<close>

text \<open>
  The versions \<open>_merge_with_claude\<close> collects: for every successful result that names a
  worktree, the cluster and the content of its file there, if that file exists.
  \<open>result['rel_path']\<close> raises \<open>KeyError\<close> when the key is absent.
\<close>

fun fixed_versions :: "files \<Rightarrow> cluster_result list \<Rightarrow> py_exn + (issue_cluster \<times> string) list" where
  "fixed_versions fs [] = Inr []"
| "fixed_versions fs (r # rest) =
     (case (cr_success r, cr_worktree_path r) of
        (True, Some worktree_path) \<Rightarrow>
          (case cr_rel_path r of
             None \<Rightarrow> Inl (KeyError ''rel_path'')
           | Some rel_path \<Rightarrow>
               (case fixed_versions fs rest of
                  Inl e \<Rightarrow> Inl e
                | Inr vs \<Rightarrow>
                    (case fs (path_join worktree_path rel_path) of
                       None \<Rightarrow> Inr vs
                     | Some fixed_content \<Rightarrow> Inr ((cr_cluster r, fixed_content) # vs))))
      | _ \<Rightarrow> fixed_versions fs rest)"

fun version_texts :: "nat \<Rightarrow> (issue_cluster \<times> string) list \<Rightarrow> string" where
  "version_texts n [] = []"
| "version_texts n ((cluster, content) # vs) =
     [newline] @ ''Version '' @ str_int (int n) @ '' fixed these issues:'' @ [newline]
       @ concat (map (\<lambda>i. ''  - '' @ issue_line_text i @ [newline]) (issues cluster))
       @ version_texts (n + 1) vs"

definition create_merge_prompt :: "string \<Rightarrow> string \<Rightarrow> (issue_cluster \<times> string) list \<Rightarrow> string" where
  "create_merge_prompt file_path current_content versions =
     join [newline]
       [''You are tasked with merging multiple fixes for a Python file that has various linting issues.'',
        '''',
        ''The file '' @ path_name file_path
          @ '' had multiple linting issues that were fixed in parallel by different instances.'',
        ''Your job is to intelligently merge all these fixes into a single, coherent file.'',
        '''',
        ''IMPORTANT REQUIREMENTS:'',
        ''1. The final merged file must include ALL fixes from ALL versions'',
        ''2. Resolve any conflicts by choosing the most complete fix'',
        ''3. Ensure no fixes are lost in the merge'',
        ''4. Maintain code functionality and style'',
        ''5. The merged result should pass all linting checks'',
        '''',
        ''Here are the issues that were fixed in each version:'',
        '''', '''']
     @ version_texts 1 versions
     @ join [newline]
       ['''', '''',
        ''The current file is at '' @ file_path @ ''.'',
        '''',
        ''MERGE STRATEGY:'',
        ''1. Read the current file to understand the base state'',
        ''2. Analyze each fix to understand what was changed'',
        ''3. Apply all fixes, ensuring no fix overwrites another'',
        ''4. If fixes conflict, choose the most comprehensive solution'',
        ''5. Write the final merged result back to '' @ file_path @ ''.'',
        '''',
        ''Proceed with the merge.'']"

definition claude_merge :: "config \<Rightarrow> string \<Rightarrow> string \<Rightarrow> command" where
  "claude_merge cfg prompt base_path =
     \<lparr>argv = [''claude'', ''-p'', prompt, ''--dangerously-skip-permissions'',
              ''--allowedTools'', ''Read,Write'', ''--output-format'', ''text''],
      cwd = Some base_path, cmd_input = None, time_limit = Some (timeout cfg)\<rparr>"

text \<open>\<open>_merge_with_claude\<close>: every exception inside gives \<open>False\<close>.\<close>

definition merge_with_claude ::
  "fixer_env \<Rightarrow> config \<Rightarrow> string \<Rightarrow> string \<Rightarrow> cluster_result list \<Rightarrow> world \<Rightarrow> bool \<times> world" where
  "merge_with_claude E cfg base_path file_path cluster_results w =
     (case read_text (disk w) file_path of
        Inl e \<Rightarrow> (False, w)
      | Inr current_content \<Rightarrow>
          (case fixed_versions (disk w) cluster_results of
             Inl e \<Rightarrow> (False, w)
           | Inr versions \<Rightarrow>
               if versions = [] then (False, w)
               else
                 (case run E (claude_merge cfg (create_merge_prompt file_path current_content versions)
                                base_path) w of
                    (Inl e, w1) \<Rightarrow> (False, w1)
                  | (Inr result, w1) \<Rightarrow> (returncode result = 0, w1))))"

definition git_apply :: "string \<Rightarrow> string \<Rightarrow> command" where
  "git_apply patch base_path =
     \<lparr>argv = [''git'', ''apply'', ''--3way'', ''--whitespace=fix''], cwd = Some base_path,
      cmd_input = Some patch, time_limit = None\<rparr>"

text \<open>\<open>result.get('patch')\<close> is true for a non-empty patch.\<close>

definition has_patch :: "cluster_result \<Rightarrow> bool" where
  "has_patch r = (case cr_patch r of None \<Rightarrow> False | Some p \<Rightarrow> p \<noteq> [])"

text \<open>
  The loop of the \<open>sequential\<close> strategy over the results still to apply;
  \<open>sorted_results\<close> is the whole sorted list, handed to the agent merge on a failure.
  An exception of \<open>subprocess.run\<close> is not caught here.
\<close>

fun apply_patches ::
  "fixer_env \<Rightarrow> config \<Rightarrow> string \<Rightarrow> string \<Rightarrow> cluster_result list \<Rightarrow> cluster_result list \<Rightarrow> world
     \<Rightarrow> (py_exn + bool) \<times> world" where
  "apply_patches E cfg base_path file_path sorted_results [] w = (Inr True, w)"
| "apply_patches E cfg base_path file_path sorted_results (r # rest) w =
     (if has_patch r then
        (case run E (git_apply (the (cr_patch r)) base_path) w of
           (Inl e, w1) \<Rightarrow> (Inl e, w1)
         | (Inr apply_result, w1) \<Rightarrow>
             if returncode apply_result \<noteq> 0
             then (case merge_with_claude E cfg base_path file_path sorted_results w1 of
                     (ok, w2) \<Rightarrow> (Inr ok, w2))
             else apply_patches E cfg base_path file_path sorted_results rest w1)
      else apply_patches E cfg base_path file_path sorted_results rest w)"

definition git_in :: "string list \<Rightarrow> string \<Rightarrow> command" where
  "git_in args dir = \<lparr>argv = ''git'' # args, cwd = Some dir, cmd_input = None, time_limit = None\<rparr>"

text \<open>The first loop of the \<open>octopus\<close> strategy: one committed branch per patch.\<close>

fun octopus_branches ::
  "fixer_env \<Rightarrow> cluster_result list \<Rightarrow> world \<Rightarrow> (py_exn + string list) \<times> world" where
  "octopus_branches E [] w = (Inr [], w)"
| "octopus_branches E (r # rest) w =
     (if has_patch r then
        (let branch_name = ''linter-fix-'' @ fingerprint (cr_cluster r) in
         case (cr_worktree_path r, cr_rel_path r) of
           (None, _) \<Rightarrow> (Inl (KeyError ''worktree_path''), w)
         | (Some worktree_path, rel) \<Rightarrow>
             (case run E (git_in [''checkout'', ''-b'', branch_name] worktree_path) w of
                (Inl e, w1) \<Rightarrow> (Inl e, w1)
              | (Inr r1, w1) \<Rightarrow>
                  (case rel of
                     None \<Rightarrow> (Inl (KeyError ''rel_path''), w1)
                   | Some rel_path \<Rightarrow>
                       (case run E (git_in [''add'', rel_path] worktree_path) w1 of
                          (Inl e, w2) \<Rightarrow> (Inl e, w2)
                        | (Inr r2, w2) \<Rightarrow>
                            (case run E (git_in [''commit'', ''-m'',
                                           ''Fix cluster '' @ fingerprint (cr_cluster r)]
                                           worktree_path) w2 of
                               (Inl e, w3) \<Rightarrow> (Inl e, w3)
                             | (Inr r3, w3) \<Rightarrow>
                                 (case octopus_branches E rest w3 of
                                    (Inl e, w4) \<Rightarrow> (Inl e, w4)
                                  | (Inr branches, w4) \<Rightarrow> (Inr (branch_name # branches), w4)))))))
      else octopus_branches E rest w)"

text \<open>
  \<open>_merge_worktree_fixes\<close>. \<open>sorted\<close> is stable. A strategy name other than the three
  known ones falls through to \<open>return True\<close>.
\<close>

definition merge_worktree_fixes ::
  "fixer_env \<Rightarrow> config \<Rightarrow> string \<Rightarrow> string \<Rightarrow> cluster_result list \<Rightarrow> world
     \<Rightarrow> (py_exn + bool) \<times> world" where
  "merge_worktree_fixes E cfg base_path file_path cluster_results w =
     (if cluster_results = [] then (Inr True, w)
      else
        (let sorted_results = sort_key (\<lambda>r. start_line (cr_cluster r)) cluster_results in
         if worktree_merge_strategy cfg = ''claude'' then
           (case merge_with_claude E cfg base_path file_path sorted_results w of
              (ok, w1) \<Rightarrow> (Inr ok, w1))
         else if worktree_merge_strategy cfg = ''sequential'' then
           apply_patches E cfg base_path file_path sorted_results sorted_results w
         else if worktree_merge_strategy cfg = ''octopus'' then
           (case octopus_branches E sorted_results w of
              (Inl e, w1) \<Rightarrow> (Inl e, w1)
            | (Inr branches_to_merge, w1) \<Rightarrow>
                if branches_to_merge \<noteq> [] then
                  (case run E (git_in ([''merge'', ''--no-ff'', ''-m'', ''Merge linter fixes'']
                                        @ branches_to_merge) base_path) w1 of
                     (Inl e, w2) \<Rightarrow> (Inl e, w2)
                   | (Inr merge_result, w2) \<Rightarrow> (Inr (returncode merge_result = 0), w2))
                else (Inr True, w1))
         else (Inr True, w)))"

text \<open>\<open>_merge_cluster_fixes\<close>, the merge without worktrees.\<close>

definition merge_cluster_fixes :: "string \<Rightarrow> string \<Rightarrow> cluster_result list \<Rightarrow> py_exn + string" where
  "merge_cluster_fixes original current cluster_fixes =
     (if cluster_fixes \<noteq> [] then
        (case cr_fixed_content (last cluster_fixes) of
           None \<Rightarrow> Inl (KeyError ''fixed_content'')
         | Some fixed_content \<Rightarrow> Inr fixed_content)
      else Inr current)"

section \<open>Fix-Session Controller\<close>

text \<open>The dictionary \<open>_fix_single_file\<close> returns, with the \<open>file\<close> key \<open>batch_fix_files\<close> adds.\<close>

record file_result =
  fr_success :: bool
  fr_error :: "string option"
  fr_message :: "string option"
  fr_predicted :: "nat option"
  fr_worktrees_used :: "nat option"
  fr_claude_calls :: "nat option"
  fr_file :: "string option"

definition file_failure :: "string option \<Rightarrow> string option \<Rightarrow> file_result" where
  "file_failure err msg =
     \<lparr>fr_success = False, fr_error = err, fr_message = msg, fr_predicted = None,
      fr_worktrees_used = None, fr_claude_calls = None, fr_file = None\<rparr>"

text \<open>
  The prediction pass: \<open>if predicted:\<close> takes a prediction that is not the empty
  string, and later issues are predicted on the content fixed so far.
\<close>

fun predict_loop ::
  "config \<Rightarrow> issue list \<Rightarrow> string \<Rightarrow> (issue \<times> string) list \<Rightarrow> issue list
     \<Rightarrow> (issue \<times> string) list \<times> issue list \<times> string" where
  "predict_loop cfg [] file_content predicted_fixes remaining_issues =
     (predicted_fixes, remaining_issues, file_content)"
| "predict_loop cfg (i # rest) file_content predicted_fixes remaining_issues =
     (case predict_simple_fix cfg i file_content of
        Some predicted \<Rightarrow>
          if predicted \<noteq> []
          then predict_loop cfg rest predicted (predicted_fixes @ [(i, predicted)]) remaining_issues
          else predict_loop cfg rest file_content predicted_fixes (remaining_issues @ [i])
      | None \<Rightarrow> predict_loop cfg rest file_content predicted_fixes (remaining_issues @ [i]))"

text \<open>\<open>xs[:k]\<close>; a negative \<open>k\<close> counts from the end.\<close>

definition py_take :: "int \<Rightarrow> 'a list \<Rightarrow> 'a list" where
  "py_take k xs = (if 0 \<le> k then take (nat k) xs else take (nat (int (length xs) + k)) xs)"

text \<open>
  The worker pool is run here one task after the other, in the order of submission, and
  the results are collected in that order: one of the schedules the pool allows, and the
  only one when it has a single worker.
\<close>

fun submit_worktree_fixes ::
  "fixer_env \<Rightarrow> config \<Rightarrow> string \<Rightarrow> string \<Rightarrow> (issue \<times> string) list \<Rightarrow> issue_cluster list
     \<Rightarrow> world \<Rightarrow> cluster_result list \<times> world" where
  "submit_worktree_fixes E cfg file_path git_root predicted_fixes [] w = ([], w)"
| "submit_worktree_fixes E cfg file_path git_root predicted_fixes (cluster # rest) w =
     (case fix_cluster_with_worktree E cfg file_path cluster git_root predicted_fixes
             (w\<lparr>trace := trace w @ [Submit ''fix_cluster_with_worktree'' cluster]\<rparr>) of
        (result, w1) \<Rightarrow>
          (case submit_worktree_fixes E cfg file_path git_root predicted_fixes rest w1 of
             (results, w2) \<Rightarrow> (result # results, w2)))"

fun submit_claude_fixes ::
  "fixer_env \<Rightarrow> config \<Rightarrow> string \<Rightarrow> string \<Rightarrow> issue_cluster list \<Rightarrow> world
     \<Rightarrow> cluster_result list \<times> world" where
  "submit_claude_fixes E cfg file_path file_content [] w = ([], w)"
| "submit_claude_fixes E cfg file_path file_content (cluster # rest) w =
     (case fix_cluster_with_claude E cfg file_path cluster file_content
             (w\<lparr>trace := trace w @ [Submit ''fix_cluster_with_claude'' cluster]\<rparr>) of
        (result, w1) \<Rightarrow>
          (case submit_claude_fixes E cfg file_path file_content rest w1 of
             (results, w2) \<Rightarrow> (result # results, w2)))"

text \<open>The local \<open>cleanup_all\<close>: only results that name a worktree are cleaned.\<close>

definition cleanup_results :: "fixer_env \<Rightarrow> cluster_result list \<Rightarrow> world \<Rightarrow> world" where
  "cleanup_results E all_worktree_results w =
     foldl (\<lambda>w' result. case cr_worktree_path result of
                           None \<Rightarrow> w' | Some p \<Rightarrow> cleanup_worktree E p w')
       w all_worktree_results"

text \<open>
  The worktree branch of the \<open>with ThreadPoolExecutor\<close> block. The outcome is the new
  \<open>file_content\<close> and the successful results, or \<open>Inr (Inl result)\<close> for the early
  \<open>return\<close> after a failed merge, or an exception.
\<close>

definition fix_with_worktrees ::
  "fixer_env \<Rightarrow> config \<Rightarrow> string \<Rightarrow> string \<Rightarrow> (issue \<times> string) list \<Rightarrow> issue_cluster list
     \<Rightarrow> string \<Rightarrow> world
     \<Rightarrow> (py_exn + (file_result + string \<times> cluster_result list)) \<times> world" where
  "fix_with_worktrees E cfg file_path git_root predicted_fixes clusters file_content w =
     (case relative_to file_path git_root of
        Inl e \<Rightarrow> (Inl e, w)
      | Inr rel_path \<Rightarrow>
          (let added =
                 (if disk w file_path \<noteq> None
                  then (case run E (git_in [''add'', ''-N'', rel_path] git_root) w of
                          (Inl e, w1) \<Rightarrow> (Some e, w1)
                        | (Inr r, w1) \<Rightarrow> (None, w1))
                  else (None, w))
           in case added of
                (Some e, w1) \<Rightarrow> (Inl e, w1)
              | (None, w1) \<Rightarrow>
                  (case submit_worktree_fixes E cfg file_path git_root predicted_fixes
                          (py_take (max_worktrees cfg) clusters) w1 of
                     (all_worktree_results, w2) \<Rightarrow>
                       (let cluster_results = filter cr_success all_worktree_results in
                        if cluster_results \<noteq> [] then
                          (case merge_worktree_fixes E cfg git_root file_path cluster_results w2 of
                             (Inl e, w3) \<Rightarrow> (Inl e, w3)
                           | (Inr merge_success, w3) \<Rightarrow>
                               (let w4 = (if cleanup_worktrees cfg
                                          then cleanup_results E all_worktree_results w3 else w3)
                                in if merge_success then
                                     (case read_text (disk w4) file_path of
                                        Inl e \<Rightarrow> (Inl e, w4)
                                      | Inr merged \<Rightarrow> (Inr (Inr (merged, cluster_results)), w4))
                                   else
                                     (Inr (Inl (file_failure (Some ''Failed to merge worktree fixes'')
                                                  None)),
                                      if cleanup_worktrees cfg
                                      then cleanup_results E all_worktree_results w4 else w4)))
                        else
                          (Inr (Inr (file_content, cluster_results)),
                           if cleanup_worktrees cfg
                           then cleanup_results E all_worktree_results w2 else w2)))))"

text \<open>The branch without worktrees: every cluster runs on the file itself.\<close>

definition fix_in_memory ::
  "fixer_env \<Rightarrow> config \<Rightarrow> string \<Rightarrow> issue_cluster list \<Rightarrow> string \<Rightarrow> string \<Rightarrow> world
     \<Rightarrow> (py_exn + string) \<times> world" where
  "fix_in_memory E cfg file_path clusters original_content file_content w =
     (case submit_claude_fixes E cfg file_path file_content clusters w of
        (results, w1) \<Rightarrow>
          (let cluster_fixes = filter cr_success results in
           if cluster_fixes \<noteq> []
           then (merge_cluster_fixes original_content file_content cluster_fixes, w1)
           else (Inr file_content, w1)))"

text \<open>\<open>git_root\<close> counts as present when it is a non-empty string.\<close>

definition use_worktrees :: "config \<Rightarrow> string option \<Rightarrow> bool" where
  "use_worktrees cfg git_root =
     (use_git_worktrees cfg \<and> (case git_root of None \<Rightarrow> False | Some g \<Rightarrow> g \<noteq> []))"

text \<open>
  The \<open>if remaining_issues:\<close> block: cluster, look for the git root, create the pool
  (\<open>ThreadPoolExecutor\<close> raises \<open>ValueError\<close> for a size below one) and run one of
  the two branches. The result carries what the rest of \<open>_fix_single_file\<close> reads:
  \<open>file_content\<close>, \<open>clusters\<close>, \<open>git_root\<close> and \<open>cluster_results\<close>.
\<close>

definition run_clusters ::
  "fixer_env \<Rightarrow> config \<Rightarrow> string \<Rightarrow> (issue \<times> string) list \<Rightarrow> issue list \<Rightarrow> string \<Rightarrow> string
     \<Rightarrow> world
     \<Rightarrow> (py_exn + (file_result + string \<times> issue_cluster list \<times> string option \<times> cluster_result list))
         \<times> world" where
  "run_clusters E cfg file_path predicted_fixes remaining_issues original_content file_content w =
     (case cluster_issues cfg remaining_issues of
        Inl e \<Rightarrow> (Inl e, w)
      | Inr clusters \<Rightarrow>
          (case (if use_git_worktrees cfg then get_git_root E w else (Inr None, w)) of
             (Inl e, w1) \<Rightarrow> (Inl e, w1)
           | (Inr git_root, w1) \<Rightarrow>
               (let n = min (max_workers cfg) (int (length clusters)) in
                if n \<le> 0 then (Inl (ValueError ''max_workers must be greater than 0''), w1)
                else
                  (let w2 = w1\<lparr>trace := trace w1 @ [ThreadPoolExecutor n]\<rparr> in
                   if use_worktrees cfg git_root then
                     (case fix_with_worktrees E cfg file_path (the git_root) predicted_fixes
                             clusters file_content w2 of
                        (Inl e, w3) \<Rightarrow> (Inl e, w3)
                      | (Inr (Inl early), w3) \<Rightarrow> (Inr (Inl early), w3)
                      | (Inr (Inr (merged, cluster_results)), w3) \<Rightarrow>
                          (Inr (Inr (merged, clusters, git_root, cluster_results)), w3))
                   else
                     (case fix_in_memory E cfg file_path clusters original_content file_content w2 of
                        (Inl e, w3) \<Rightarrow> (Inl e, w3)
                      | (Inr merged, w3) \<Rightarrow> (Inr (Inr (merged, clusters, git_root, [])), w3))))))"

text \<open>The \<open>try\<close> block of \<open>_fix_single_file\<close>.\<close>

definition fix_single_file_body ::
  "fixer_env \<Rightarrow> config \<Rightarrow> string \<Rightarrow> issue list \<Rightarrow> world \<Rightarrow> (py_exn + file_result) \<times> world" where
  "fix_single_file_body E cfg file_path issue_list w =
     (case read_text (disk w) file_path of
        Inl e \<Rightarrow> (Inl e, w)
      | Inr original_content \<Rightarrow>
          (case predict_loop cfg issue_list original_content [] [] of
             (predicted_fixes, remaining_issues, file_content) \<Rightarrow>
               (case (if remaining_issues \<noteq> []
                      then run_clusters E cfg file_path predicted_fixes remaining_issues
                             original_content file_content w
                      else (Inr (Inr (file_content, [], None, [])), w)) of
                  (Inl e, w1) \<Rightarrow> (Inl e, w1)
                | (Inr (Inl early), w1) \<Rightarrow> (Inr early, w1)
                | (Inr (Inr (final_content, clusters, git_root, cluster_results)), w1) \<Rightarrow>
                    if final_content \<noteq> original_content then
                      (let w2 = w1\<lparr>disk := write_text (disk w1) file_path final_content\<rparr> in
                       if use_worktrees cfg git_root \<and> remaining_issues \<noteq> [] then
                         (Inr \<lparr>fr_success = True, fr_error = None,
                               fr_message = Some (''Fixed '' @ str_int (int (length issue_list))
                                 @ '' issues with '' @ str_int (int (length predicted_fixes))
                                 @ '' predictions and '' @ str_int (int (length cluster_results))
                                 @ '' worktree fixes''),
                               fr_predicted = Some (length predicted_fixes),
                               fr_worktrees_used = Some (length cluster_results),
                               fr_claude_calls = Some (length cluster_results),
                               fr_file = None\<rparr>, w2)
                       else
                         (let calls = (if remaining_issues \<noteq> [] then length clusters else 0) in
                          (Inr \<lparr>fr_success = True, fr_error = None,
                                fr_message = Some (''Fixed '' @ str_int (int (length issue_list))
                                  @ '' issues with '' @ str_int (int (length predicted_fixes))
                                  @ '' predictions and '' @ str_int (int calls) @ '' Claude calls''),
                                fr_predicted = Some (length predicted_fixes),
                                fr_worktrees_used = None,
                                fr_claude_calls = Some calls,
                                fr_file = None\<rparr>, w2)))
                    else (Inr (file_failure None (Some ''No changes made'')), w1))))"

text \<open>\<open>_fix_single_file\<close>: count the attempt, give up past the limit, and turn any
  exception of the body into a failed result.\<close>

definition fix_single_file ::
  "fixer_env \<Rightarrow> config \<Rightarrow> string \<Rightarrow> issue list \<Rightarrow> world \<Rightarrow> file_result \<times> world" where
  "fix_single_file E cfg file_path issue_list w =
     (let attempts = (case fix_attempts w file_path of None \<Rightarrow> 0 | Some n \<Rightarrow> n) + 1;
          w0 = w\<lparr>fix_attempts := (fix_attempts w)(file_path \<mapsto> attempts)\<rparr>
      in if attempts > max_fix_attempts cfg then
           (file_failure
              (Some (''Max fix attempts ('' @ str_int (max_fix_attempts cfg) @ '') exceeded''))
              (Some ''Unable to fix all issues after multiple attempts''), w0)
         else
           (case fix_single_file_body E cfg file_path issue_list w0 of
              (Inl e, w1) \<Rightarrow> (file_failure (Some (str_exn e)) None, w1)
            | (Inr result, w1) \<Rightarrow> (result, w1)))"

fun fix_files ::
  "fixer_env \<Rightarrow> config \<Rightarrow> (string \<times> issue list) list \<Rightarrow> world \<Rightarrow> file_result list \<times> world" where
  "fix_files E cfg [] w = ([], w)"
| "fix_files E cfg ((file_path, issue_list) # rest) w =
     (case fix_single_file E cfg file_path issue_list w of
        (result, w1) \<Rightarrow>
          (case fix_files E cfg rest w1 of
             (results, w2) \<Rightarrow> (result\<lparr>fr_file := Some file_path\<rparr> # results, w2)))"

text \<open>\<open>batch_fix_files\<close>: the loop, then the \<open>finally\<close> clause.\<close>

definition batch_fix_files ::
  "fixer_env \<Rightarrow> config \<Rightarrow> (string \<times> issue list) list \<Rightarrow> world \<Rightarrow> file_result list \<times> world" where
  "batch_fix_files E cfg file_issues w =
     (case fix_files E cfg file_issues w of
        (results, w1) \<Rightarrow>
          (results, if cleanup_worktrees cfg then cleanup_all_worktrees E w1 else w1))"

section \<open>Sample sessions\<close>

text \<open>A file with an unused variable on line 2 and an undefined name on line 3.\<close>

definition session_source :: string where
  "session_source = join [newline] [''def f():'', ''    x = 1'', ''    return y'']"

definition unused_x2 :: issue where
  "unused_x2 = \<lparr>rule = Some ''F841'',
     message = Some ''Local variable `x` is assigned to but never used'',
     line = Some 2, column = Some 5\<rparr>"

definition undefined_y :: issue where
  "undefined_y = \<lparr>rule = Some ''F821'', message = Some ''Undefined name `y`'',
     line = Some 3, column = Some 12\<rparr>"

definition ok :: completed where
  "ok = \<lparr>returncode = 0, stdout = [], stderr = []\<rparr>"

text \<open>
  A repository at \<open>/repo\<close> holding \<open>a.py\<close>, with git and an agent that do their job:
  \<open>git rev-parse\<close> prints the root, \<open>git worktree add\<close> puts a copy of \<open>a.py\<close> into
  the new worktree, and the agent replaces the line \<open>return y\<close> by \<open>return 0\<close> in the
  \<open>a.py\<close> of its working directory. Every command exits with code 0.
\<close>

definition agent_edit :: "string \<Rightarrow> string" where
  "agent_edit content =
     join [newline] (map (\<lambda>l. if l = ''    return y'' then ''    return 0'' else l)
                        (split_on newline content))"

definition working_commands :: "command \<Rightarrow> files \<Rightarrow> (py_exn + completed) \<times> files" where
  "working_commands cmd fs =
     (if take 1 (argv cmd) = [''claude''] then
        (case cwd cmd of
           None \<Rightarrow> (Inr ok, fs)
         | Some d \<Rightarrow>
             (case fs (path_join d ''a.py'') of
                None \<Rightarrow> (Inr ok, fs)
              | Some c \<Rightarrow> (Inr ok, fs(path_join d ''a.py'' \<mapsto> agent_edit c))))
      else if take 4 (argv cmd) = [''git'', ''worktree'', ''add'', ''--detach''] then
        (case fs ''/repo/a.py'' of
           None \<Rightarrow> (Inr ok, fs)
         | Some c \<Rightarrow> (Inr ok, fs(path_join (last (argv cmd)) ''a.py'' \<mapsto> c)))
      else if argv cmd = [''git'', ''rev-parse'', ''--show-toplevel''] then
        (Inr (ok\<lparr>stdout := ''/repo'' @ [newline]\<rparr>), fs)
      else (Inr ok, fs))"

definition working_agent :: fixer_env where
  "working_agent =
     \<lparr>subprocess_run = working_commands,
      mkdir_parents = (\<lambda>p fs. None),
      uuid4_hex = (\<lambda>n. ''0123456789abcdef0123456789abcdef''),
      getcwd = ''/repo''\<rparr>"

definition fresh_world :: "files \<Rightarrow> world" where
  "fresh_world fs =
     \<lparr>disk = fs, active_worktrees = [], fix_attempts = Map.empty, uuid_count = 0, trace = []\<rparr>"

section \<open>Reading the event trace\<close>

text \<open>The events between two states of one run.\<close>

definition new_events :: "world \<Rightarrow> world \<Rightarrow> event list" where
  "new_events w w' = drop (length (trace w)) (trace w')"

text \<open>
  A step that went well: a subprocess that returned, and returned 0 if it ran the agent
  or created a worktree.
\<close>

definition step_ok :: "event \<Rightarrow> bool" where
  "step_ok ev =
     (case ev of
        Subprocess cmd (Inl e) \<Rightarrow> False
      | Subprocess cmd (Inr res) \<Rightarrow>
          (if take 1 (argv cmd) = [''claude''] \<or> take 3 (argv cmd) = [''git'', ''worktree'', ''add'']
           then returncode res = 0 else True)
      | ThreadPoolExecutor n \<Rightarrow> True
      | Submit f c \<Rightarrow> True)"

text \<open>The worktrees a trace shows created (the add command returned 0) and discarded
  (the remove command was run).\<close>

fun created_by :: "event \<Rightarrow> string list" where
  "created_by (Subprocess cmd (Inr res)) =
     (case argv cmd of
        [a, b, c, d, p] \<Rightarrow>
          (if [a, b, c, d] = [''git'', ''worktree'', ''add'', ''--detach''] \<and> returncode res = 0
           then [p] else [])
      | _ \<Rightarrow> [])"
| "created_by _ = []"

fun discarded_by :: "event \<Rightarrow> string list" where
  "discarded_by (Subprocess cmd out) =
     (case argv cmd of
        [a, b, c, d, p] \<Rightarrow>
          (if [a, b, c, d] = [''git'', ''worktree'', ''remove'', ''--force''] then [p] else [])
      | _ \<Rightarrow> [])"
| "discarded_by _ = []"

definition created :: "event list \<Rightarrow> string list" where
  "created tr = concat (map created_by tr)"

definition discarded :: "event list \<Rightarrow> string list" where
  "discarded tr = concat (map discarded_by tr)"

text \<open>The pool and the submissions a trace shows, in order.\<close>

fun is_scheduling :: "event \<Rightarrow> bool" where
  "is_scheduling (Subprocess cmd out) = False"
| "is_scheduling (ThreadPoolExecutor n) = True"
| "is_scheduling (Submit f c) = True"

definition scheduling :: "event list \<Rightarrow> event list" where
  "scheduling tr = filter is_scheduling tr"



text \<open>The same, but the agent runs into the timeout; and the same, but \<open>git diff\<close>
  fails with exit code 128.\<close>

definition timing_out_agent :: fixer_env where
  "timing_out_agent =
     working_agent\<lparr>subprocess_run :=
        (\<lambda>cmd fs. if take 1 (argv cmd) = [''claude'']
                   then (Inl (TimeoutExpired ''Command timed out after 600 seconds''), fs)
                   else working_commands cmd fs)\<rparr>"

definition failing_diff_agent :: fixer_env where
  "failing_diff_agent =
     working_agent\<lparr>subprocess_run :=
        (\<lambda>cmd fs. if take 2 (argv cmd) = [''git'', ''diff'']
                   then (Inr \<lparr>returncode = 128, stdout = [],
                               stderr = ''fatal: bad revision HEAD''\<rparr>, fs)
                   else working_commands cmd fs)\<rparr>"

definition repo_world :: world where
  "repo_world = fresh_world [''/repo/a.py'' \<mapsto> session_source]"

section \<open>What the sequential strategy is expected to do\<close>

text \<open>The \<open>git apply\<close> calls for some patches, each with the process it completed as.\<close>

definition apply_events :: "string \<Rightarrow> (string \<times> completed) list \<Rightarrow> event list" where
  "apply_events base_path prs = map (\<lambda>(p, res). Subprocess (git_apply p base_path) (Inr res)) prs"







section \<open>Accounting for worktrees and scheduling\<close>

text \<open>
  From \<open>w\<close> to \<open>w'\<close> the run only added events; every worktree it created is
  registered in \<open>w'\<close> or was discarded on the way, and so is every worktree that was
  registered in \<open>w\<close>.
\<close>

definition accounted :: "world \<Rightarrow> world \<Rightarrow> bool" where
  "accounted w w' =
     (\<exists>evs. trace w' = trace w @ evs
        \<and> (\<forall>p\<in>set (created evs). p \<in> set (discarded evs) \<or> p \<in> set (active_worktrees w'))
        \<and> (\<forall>p\<in>set (active_worktrees w).
              p \<in> set (discarded evs) \<or> p \<in> set (active_worktrees w')))"

text \<open>From \<open>w\<close> to \<open>w'\<close> the run only added events, none of them a pool or a
  submission.\<close>

definition quiet :: "world \<Rightarrow> world \<Rightarrow> bool" where
  "quiet w w' = (\<exists>evs. trace w' = trace w @ evs \<and> scheduling evs = [])"

text \<open>Three issues far apart, a small pool and a quota of one worktree.\<close>

definition small_quota :: config where
  "small_quota = default_config\<lparr>use_git_worktrees := True, batch_similar := False,
     max_workers := 4, max_worktrees := 1\<rparr>"

definition keep_worktrees :: config where
  "keep_worktrees = default_config\<lparr>use_git_worktrees := True, batch_similar := False,
     cleanup_worktrees := False\<rparr>"

section \<open>Properties of the Issue Clusterer\<close>

subsection \<open>The clustering loop\<close>

lemma create_cluster_Inr:
  "xs \<noteq> [] \<Longrightarrow> \<exists>c. create_cluster xs = Inr c \<and> issues c = xs \<and> fingerprint c = get_cluster_fingerprint xs"
  by (cases xs) (simp_all add: create_cluster_def py_min_def py_max_def)

lemma cluster_loop_concat:
  "\<exists>cs' cur'. cluster_loop ce xs cs cur = Inr (cs', cur')
      \<and> concat (map issues cs') @ cur' = concat (map issues cs) @ cur @ xs
      \<and> (cur \<noteq> [] \<or> xs \<noteq> [] \<longrightarrow> cur' \<noteq> [])"
proof (induction xs arbitrary: cs cur)
  case Nil
  then show ?case by simp
next
  case (Cons x xs)
  show ?case
  proof (cases "cur = [] \<or> ce cur x")
    case True
    from Cons.IH[of cs "cur @ [x]"] True show ?thesis by auto
  next
    case False
    then obtain c where c: "create_cluster cur = Inr c" "issues c = cur"
      using create_cluster_Inr[of cur] by auto
    from Cons.IH[of "cs @ [c]" "[x]"] False c show ?thesis by auto
  qed
qed

lemma cluster_loop_inv:
  assumes single: "\<And>i. Q [i]"
    and step: "\<And>cur i. cur \<noteq> [] \<Longrightarrow> Q cur \<Longrightarrow> ce cur i \<Longrightarrow> Q (cur @ [i])"
    and close: "\<And>cur c. cur \<noteq> [] \<Longrightarrow> Q cur \<Longrightarrow> create_cluster cur = Inr c \<Longrightarrow> R c"
  shows "cur = [] \<or> Q cur \<Longrightarrow> \<forall>c\<in>set cs. R c \<Longrightarrow> cluster_loop ce xs cs cur = Inr (cs', cur')
      \<Longrightarrow> (\<forall>c\<in>set cs'. R c) \<and> (cur' = [] \<or> Q cur')"
proof (induction xs arbitrary: cs cur)
  case Nil
  then show ?case by auto
next
  case (Cons x xs)
  show ?case
  proof (cases "cur = []")
    case True
    with Cons.prems have "cluster_loop ce xs cs [x] = Inr (cs', cur')" by simp
    from Cons.IH[OF _ Cons.prems(2) this] single show ?thesis by blast
  next
    case False
    note ne = this
    show ?thesis
    proof (cases "ce cur x")
      case True
      with ne Cons.prems have run: "cluster_loop ce xs cs (cur @ [x]) = Inr (cs', cur')" by simp
      from ne Cons.prems(1) True have "Q (cur @ [x])" using step by blast
      with Cons.IH[OF _ Cons.prems(2) run] show ?thesis by blast
    next
      case False
      from ne obtain c where c: "create_cluster cur = Inr c" using create_cluster_Inr by blast
      with ne False Cons.prems have run: "cluster_loop ce xs (cs @ [c]) [x] = Inr (cs', cur')" by simp
      from ne Cons.prems(1) c have "R c" using close by blast
      with Cons.prems(2) have all: "\<forall>c\<in>set (cs @ [c]). R c" by simp
      from Cons.IH[OF _ all run] single show ?thesis by blast
    qed
  qed
qed

lemma flush_cluster_concat:
  "\<exists>cs'. flush_cluster cs cur = Inr cs' \<and> concat (map issues cs') = concat (map issues cs) @ cur"
proof (cases "cur = []")
  case True
  then show ?thesis by (simp add: flush_cluster_def)
next
  case False
  then obtain c where "create_cluster cur = Inr c" "issues c = cur"
    using create_cluster_Inr[of cur] by auto
  with False show ?thesis by (simp add: flush_cluster_def)
qed

lemma flush_cluster_inv:
  assumes close: "\<And>cur c. cur \<noteq> [] \<Longrightarrow> Q cur \<Longrightarrow> create_cluster cur = Inr c \<Longrightarrow> R c"
  shows "cur = [] \<or> Q cur \<Longrightarrow> \<forall>c\<in>set cs. R c \<Longrightarrow> flush_cluster cs cur = Inr cs' \<Longrightarrow> \<forall>c\<in>set cs'. R c"
  using close by (auto simp: flush_cluster_def split: if_splits sum.splits)

lemma cluster_loop_sorted:
  "sorted (map get_line (cur @ xs)) \<Longrightarrow> \<forall>c\<in>set cs. sorted (map get_line (issues c))
     \<Longrightarrow> cluster_loop ce xs cs cur = Inr (cs', cur')
     \<Longrightarrow> (\<forall>c\<in>set cs'. sorted (map get_line (issues c))) \<and> sorted (map get_line cur')"
proof (induction xs arbitrary: cs cur)
  case Nil
  then show ?case by auto
next
  case (Cons x xs)
  show ?case
  proof (cases "cur = [] \<or> ce cur x")
    case True
    with Cons.prems(3) have run: "cluster_loop ce xs cs (cur @ [x]) = Inr (cs', cur')"
      by (cases "cur = []") simp_all
    from Cons.prems(1) have "sorted (map get_line ((cur @ [x]) @ xs))" by simp
    from Cons.IH[OF this Cons.prems(2) run] show ?thesis .
  next
    case False
    then obtain c where c: "create_cluster cur = Inr c" "issues c = cur"
      using create_cluster_Inr[of cur] by auto
    with False Cons.prems(3) have run: "cluster_loop ce xs (cs @ [c]) [x] = Inr (cs', cur')" by simp
    from Cons.prems(1) have s1: "sorted (map get_line ([x] @ xs))" and s2: "sorted (map get_line cur)"
      by (auto simp: sorted_append)
    from s2 c Cons.prems(2) have all: "\<forall>c\<in>set (cs @ [c]). sorted (map get_line (issues c))" by auto
    from Cons.IH[OF s1 all run] show ?thesis .
  qed
qed

lemma add_to_group_mset:
  "mset (concat (map snd (add_to_group g k i))) = mset (concat (map snd g)) + {#i#}"
  by (induction g k i rule: add_to_group.induct) auto

lemma foldl_add_to_group_mset:
  "mset (concat (map snd (foldl (\<lambda>groups i. add_to_group groups (f i) i) g xs)))
     = mset (concat (map snd g)) + mset xs"
  by (induction xs arbitrary: g) (auto simp: add_to_group_mset)

lemma group_issues_mset: "mset (concat (map snd (group_issues cfg xs))) = mset xs"
  by (simp add: group_issues_def foldl_add_to_group_mset)

lemma category_loop_mset:
  "\<exists>cs'. category_loop ce groups cs = Inr cs'
     \<and> mset (concat (map issues cs')) = mset (concat (map issues cs)) + mset (concat (map snd groups))"
proof (induction groups arbitrary: cs)
  case Nil
  then show ?case by simp
next
  case (Cons g groups)
  obtain k v where g: "g = (k, v)" by (cases g)
  obtain cs1 cur1 where l: "cluster_loop ce (sort_key get_line v) cs [] = Inr (cs1, cur1)"
    "concat (map issues cs1) @ cur1 = concat (map issues cs) @ [] @ sort_key get_line v"
    using cluster_loop_concat[of ce "sort_key get_line v" cs "[]"] by blast
  obtain cs2 where f: "flush_cluster cs1 cur1 = Inr cs2"
    "concat (map issues cs2) = concat (map issues cs1) @ cur1"
    using flush_cluster_concat[of cs1 cur1] by blast
  from l(2) f(2) have m: "mset (concat (map issues cs2)) = mset (concat (map issues cs)) + mset v"
    by simp
  from Cons.IH[of cs2] obtain cs3 where r: "category_loop ce groups cs2 = Inr cs3"
    "mset (concat (map issues cs3)) = mset (concat (map issues cs2)) + mset (concat (map snd groups))"
    by blast
  from g l(1) f(1) r(1) have "category_loop ce (g # groups) cs = Inr cs3" by simp
  moreover from r(2) m g have "mset (concat (map issues cs3))
      = mset (concat (map issues cs)) + mset (concat (map snd (g # groups)))" by simp
  ultimately show ?case by blast
qed

lemma category_loop_ConsE:
  assumes "category_loop ce ((k, v) # groups) cs = Inr cs'"
  shows "\<exists>cs1 cur1 cs2. cluster_loop ce (sort_key get_line v) cs [] = Inr (cs1, cur1)
     \<and> flush_cluster cs1 cur1 = Inr cs2 \<and> category_loop ce groups cs2 = Inr cs'"
proof (cases "cluster_loop ce (sort_key get_line v) cs []")
  case (Inl e)
  with assms show ?thesis by simp
next
  case (Inr p)
  obtain cs1 cur1 where p: "p = (cs1, cur1)" by (cases p)
  show ?thesis
  proof (cases "flush_cluster cs1 cur1")
    case (Inl e)
    with assms Inr p show ?thesis by simp
  next
    case (Inr cs2)
    with assms \<open>cluster_loop ce (sort_key get_line v) cs [] = Inr p\<close> p show ?thesis by simp
  qed
qed

lemma category_loop_inv:
  assumes single: "\<And>i. Q [i]"
    and step: "\<And>cur i. cur \<noteq> [] \<Longrightarrow> Q cur \<Longrightarrow> ce cur i \<Longrightarrow> Q (cur @ [i])"
    and close: "\<And>cur c. cur \<noteq> [] \<Longrightarrow> Q cur \<Longrightarrow> create_cluster cur = Inr c \<Longrightarrow> R c"
  shows "\<forall>c\<in>set cs. R c \<Longrightarrow> category_loop ce groups cs = Inr cs' \<Longrightarrow> \<forall>c\<in>set cs'. R c"
proof (induction groups arbitrary: cs)
  case Nil
  then show ?case by simp
next
  case (Cons g groups)
  obtain k v where g: "g = (k, v)" by (cases g)
  from Cons.prems(2) g obtain cs1 cur1 cs2 where
    l: "cluster_loop ce (sort_key get_line v) cs [] = Inr (cs1, cur1)"
    and f: "flush_cluster cs1 cur1 = Inr cs2"
    and r: "category_loop ce groups cs2 = Inr cs'"
    using category_loop_ConsE by blast
  have a: "(\<forall>c\<in>set cs1. R c) \<and> (cur1 = [] \<or> Q cur1)"
  proof (rule cluster_loop_inv[where Q = Q and R = R and ce = ce, OF _ _ _ _ Cons.prems(1) l])
    show "[] = [] \<or> Q []" by simp
  qed (fact single, erule (2) step, erule (2) close)
  have "\<forall>c\<in>set cs2. R c"
  proof (rule flush_cluster_inv[where Q = Q and R = R, OF _ _ _ f])
    show "cur1 = [] \<or> Q cur1" using a by simp
    show "\<forall>c\<in>set cs1. R c" using a by simp
  qed (erule (2) close)
  from Cons.IH[OF this r] show ?case .
qed

lemma category_loop_sorted:
  "\<forall>c\<in>set cs. sorted (map get_line (issues c)) \<Longrightarrow> category_loop ce groups cs = Inr cs'
     \<Longrightarrow> \<forall>c\<in>set cs'. sorted (map get_line (issues c))"
proof (induction groups arbitrary: cs)
  case Nil
  then show ?case by simp
next
  case (Cons g groups)
  obtain k v where g: "g = (k, v)" by (cases g)
  from Cons.prems(2) g obtain cs1 cur1 cs2 where
    l: "cluster_loop ce (sort_key get_line v) cs [] = Inr (cs1, cur1)"
    and f: "flush_cluster cs1 cur1 = Inr cs2"
    and r: "category_loop ce groups cs2 = Inr cs'"
    using category_loop_ConsE by blast
  have "sorted (map get_line ([] @ sort_key get_line v))" by simp
  from cluster_loop_sorted[OF this Cons.prems(1) l]
  have a: "(\<forall>c\<in>set cs1. sorted (map get_line (issues c))) \<and> sorted (map get_line cur1)" .
  have "\<forall>c\<in>set cs2. sorted (map get_line (issues c))"
  proof (rule flush_cluster_inv[of "\<lambda>cur. sorted (map get_line cur)" _ cur1 cs1 cs2, OF _ _ _ f])
    fix cur c assume "cur \<noteq> []" "sorted (map get_line cur)" "create_cluster cur = Inr c"
    then show "sorted (map get_line (issues c))" using create_cluster_Inr[of cur] by auto
  next
    show "cur1 = [] \<or> sorted (map get_line cur1)" using a by simp
  next
    show "\<forall>c\<in>set cs1. sorted (map get_line (issues c))" using a by simp
  qed
  from Cons.IH[OF this r] show ?case .
qed

lemma cluster_by_proximity_concat:
  "\<exists>cs. cluster_by_proximity cfg xs = Inr cs \<and> concat (map issues cs) = sort_key get_line xs"
proof -
  obtain cs1 cur1 where l: "cluster_loop (extend_proximity cfg) (sort_key get_line xs) [] [] = Inr (cs1, cur1)"
    "concat (map issues cs1) @ cur1 = sort_key get_line xs"
    using cluster_loop_concat[of "extend_proximity cfg" "sort_key get_line xs" "[]" "[]"] by auto
  obtain cs2 where f: "flush_cluster cs1 cur1 = Inr cs2"
    "concat (map issues cs2) = concat (map issues cs1) @ cur1"
    using flush_cluster_concat[of cs1 cur1] by blast
  from l f show ?thesis by (simp add: cluster_by_proximity_def)
qed

lemma cluster_by_proximity_inv:
  assumes single: "\<And>i. Q [i]"
    and step: "\<And>cur i. cur \<noteq> [] \<Longrightarrow> Q cur \<Longrightarrow> extend_proximity cfg cur i \<Longrightarrow> Q (cur @ [i])"
    and close: "\<And>cur c. cur \<noteq> [] \<Longrightarrow> Q cur \<Longrightarrow> create_cluster cur = Inr c \<Longrightarrow> R c"
    and run: "cluster_by_proximity cfg xs = Inr cs"
  shows "\<forall>c\<in>set cs. R c"
proof -
  from run obtain cs1 cur1 where
    l: "cluster_loop (extend_proximity cfg) (sort_key get_line xs) [] [] = Inr (cs1, cur1)"
    and f: "flush_cluster cs1 cur1 = Inr cs"
    by (cases "cluster_loop (extend_proximity cfg) (sort_key get_line xs) [] []")
       (auto simp: cluster_by_proximity_def)
  have a: "(\<forall>c\<in>set cs1. R c) \<and> (cur1 = [] \<or> Q cur1)"
  proof (rule cluster_loop_inv[where Q = Q and R = R, OF _ _ _ _ _ l])
    show "[] = [] \<or> Q []" by simp
    show "\<forall>c\<in>set []. R c" by simp
  qed (fact single, erule (2) step, erule (2) close)
  show ?thesis
  proof (rule flush_cluster_inv[where Q = Q and R = R, OF _ _ _ f])
    show "cur1 = [] \<or> Q cur1" using a by simp
    show "\<forall>c\<in>set cs1. R c" using a by simp
  qed (erule (2) close)
qed

lemma cluster_by_proximity_sorted:
  assumes run: "cluster_by_proximity cfg xs = Inr cs"
  shows "\<forall>c\<in>set cs. sorted (map get_line (issues c))"
proof -
  from run obtain cs1 cur1 where
    l: "cluster_loop (extend_proximity cfg) (sort_key get_line xs) [] [] = Inr (cs1, cur1)"
    and f: "flush_cluster cs1 cur1 = Inr cs"
    by (cases "cluster_loop (extend_proximity cfg) (sort_key get_line xs) [] []")
       (auto simp: cluster_by_proximity_def)
  have "sorted (map get_line ([] @ sort_key get_line xs))" by simp
  from cluster_loop_sorted[OF this _ l]
  have a: "(\<forall>c\<in>set cs1. sorted (map get_line (issues c))) \<and> sorted (map get_line cur1)" by simp
  show ?thesis
  proof (rule flush_cluster_inv[where Q = "\<lambda>cur. sorted (map get_line cur)", OF _ _ _ f])
    fix cur c assume "cur \<noteq> []" "sorted (map get_line cur)" "create_cluster cur = Inr c"
    then show "sorted (map get_line (issues c))" using create_cluster_Inr[of cur] by auto
  next
    show "cur1 = [] \<or> sorted (map get_line cur1)" using a by simp
  next
    show "\<forall>c\<in>set cs1. sorted (map get_line (issues c))" using a by simp
  qed
qed

lemma batched_inv:
  assumes single: "\<And>i. Q [i]"
    and step1: "\<And>cur i. cur \<noteq> [] \<Longrightarrow> Q cur \<Longrightarrow> extend_proximity cfg cur i \<Longrightarrow> Q (cur @ [i])"
    and step2: "\<And>cur i. cur \<noteq> [] \<Longrightarrow> Q cur \<Longrightarrow> extend_similarity cfg cur i \<Longrightarrow> Q (cur @ [i])"
    and close: "\<And>cur c. cur \<noteq> [] \<Longrightarrow> Q cur \<Longrightarrow> create_cluster cur = Inr c \<Longrightarrow> R c"
    and batch: "batch_similar cfg"
    and run: "cluster_issues cfg xs = Inr cs"
  shows "\<forall>c\<in>set cs. R c"
proof -
  consider (sim) "cluster_by_similarity cfg xs = Inr cs"
    | (hyb) "cluster_hybrid cfg xs = Inr cs"
    | (prox) "cluster_by_proximity cfg xs = Inr cs"
    using run batch by (auto simp: cluster_issues_def split: if_splits)
  then show ?thesis
  proof cases
    case sim
    show ?thesis
    proof (rule category_loop_inv[where Q = Q and R = R and cs = "[]", OF _ _ _ _ sim[unfolded cluster_by_similarity_def]])
      show "\<forall>c\<in>set []. R c" by simp
    qed (fact single, erule (2) step2, erule (2) close)
  next
    case hyb
    show ?thesis
    proof (rule category_loop_inv[where Q = Q and R = R and cs = "[]", OF _ _ _ _ hyb[unfolded cluster_hybrid_def]])
      show "\<forall>c\<in>set []. R c" by simp
    qed (fact single, erule (2) step1, erule (2) close)
  next
    case prox
    show ?thesis
      by (rule cluster_by_proximity_inv[where Q = Q and R = R, OF _ _ _ prox])
         (fact single, erule (2) step1, erule (2) close)
  qed
qed

lemma cluster_issues_total_mset:
  "\<exists>cs. cluster_issues cfg xs = Inr cs \<and> mset (concat (map issues cs)) = mset xs"
proof -
  have a: "concat (map issues (map singleton_cluster xs)) = xs"
    by (induction xs) (simp_all add: singleton_cluster_def)
  obtain cs1 where p: "cluster_by_proximity cfg xs = Inr cs1" "concat (map issues cs1) = sort_key get_line xs"
    using cluster_by_proximity_concat by blast
  obtain cs2 where s: "category_loop (extend_similarity cfg) (group_issues cfg xs) [] = Inr cs2"
    "mset (concat (map issues cs2)) = mset (concat (map snd (group_issues cfg xs)))"
    using category_loop_mset[of "extend_similarity cfg" "group_issues cfg xs" "[]"] by auto
  obtain cs3 where h: "category_loop (extend_proximity cfg) (group_issues cfg xs) [] = Inr cs3"
    "mset (concat (map issues cs3)) = mset (concat (map snd (group_issues cfg xs)))"
    using category_loop_mset[of "extend_proximity cfg" "group_issues cfg xs" "[]"] by auto
  from p(2) have "mset (concat (map issues cs1)) = mset xs" by simp
  with a p(1) s h show ?thesis
    by (simp add: cluster_issues_def cluster_by_similarity_def cluster_hybrid_def group_issues_mset)
qed

lemma cluster_issues_nonempty:
  assumes run: "cluster_issues cfg xs = Inr cs"
  shows "\<forall>c\<in>set cs. issues c \<noteq> []"
proof (cases "batch_similar cfg")
  case True
  show ?thesis
  proof (rule batched_inv[where Q = "\<lambda>_. True", OF _ _ _ _ True run])
    fix cur c assume "cur \<noteq> []" "create_cluster cur = Inr c"
    then show "issues c \<noteq> []" using create_cluster_Inr[of cur] by auto
  qed simp_all
next
  case False
  with run show ?thesis by (auto simp: cluster_issues_def singleton_cluster_def)
qed

lemma distinct_concat_disjoint:
  assumes d: "distinct (concat xss)" and ne: "\<forall>xs\<in>set xss. xs \<noteq> []"
    and ij: "i < j" "j < length xss"
  shows "set (xss ! i) \<inter> set (xss ! j) = {}"
proof -
  from ne have "[] \<notin> set xss" by blast
  then have "removeAll [] xss = xss" by (rule removeAll_id)
  with d have dx: "distinct xss" by (simp add: distinct_concat_iff)
  with ij have "xss ! i \<noteq> xss ! j" by (simp add: nth_eq_iff_index_eq)
  moreover from ij have "xss ! i \<in> set xss" "xss ! j \<in> set xss" by simp_all
  ultimately show ?thesis using d by (simp add: distinct_concat_iff)
qed

lemma cluster_issues_size:
  assumes run: "cluster_issues cfg xs = Inr cs"
  shows "\<forall>c\<in>set cs. int (length (issues c)) \<le> max 1 (max_issues_per_cluster cfg)"
proof (cases "batch_similar cfg")
  case True
  show ?thesis
  proof (rule batched_inv[where Q = "\<lambda>cur. int (length cur) \<le> max 1 (max_issues_per_cluster cfg)", OF _ _ _ _ True run])
    fix cur c assume "cur \<noteq> []" "int (length cur) \<le> max 1 (max_issues_per_cluster cfg)"
      "create_cluster cur = Inr c"
    then show "int (length (issues c)) \<le> max 1 (max_issues_per_cluster cfg)"
      using create_cluster_Inr[of cur] by auto
  qed (simp_all add: extend_proximity_def extend_similarity_def)
next
  case False
  with run show ?thesis by (auto simp: cluster_issues_def singleton_cluster_def)
qed

lemma gaps_within_single: "gaps_within d [i]"
  by (simp add: gaps_within_def)

lemma gaps_within_snoc:
  assumes "cur \<noteq> []" "gaps_within d cur" "get_line i - get_line (last cur) \<le> d"
  shows "gaps_within d (cur @ [i])"
  unfolding gaps_within_def
proof (intro allI impI)
  fix k assume k: "Suc k < length (cur @ [i])"
  show "get_line ((cur @ [i]) ! Suc k) - get_line ((cur @ [i]) ! k) \<le> d"
  proof (cases "Suc k < length cur")
    case True
    with assms(2) show ?thesis by (simp add: gaps_within_def nth_append)
  next
    case False
    with k have e: "Suc k = length cur" by simp
    then have "(cur @ [i]) ! Suc k = i" by (simp add: nth_append)
    moreover from e have "k = length cur - 1" by simp
    with e assms(1) have "(cur @ [i]) ! k = last cur"
      by (simp add: nth_append last_conv_nth)
    ultimately show ?thesis using assms(3) by simp
  qed
qed

lemma proximity_gaps:
  assumes run: "cluster_issues cfg xs = Inr cs" and batch: "batch_similar cfg"
    and strat: "clustering_strategy cfg \<noteq> ''similarity''"
  shows "\<forall>c\<in>set cs. gaps_within (cluster_distance cfg) (issues c) \<and> sorted (map get_line (issues c))"
proof -
  let ?Q = "gaps_within (cluster_distance cfg)"
  have close: "\<And>cur c. cur \<noteq> [] \<Longrightarrow> ?Q cur \<Longrightarrow> create_cluster cur = Inr c \<Longrightarrow> ?Q (issues c)"
    using create_cluster_Inr by fastforce
  have step: "\<And>cur i. cur \<noteq> [] \<Longrightarrow> ?Q cur \<Longrightarrow> extend_proximity cfg cur i \<Longrightarrow> ?Q (cur @ [i])"
    by (rule gaps_within_snoc) (simp_all add: extend_proximity_def)
  consider (hyb) "cluster_hybrid cfg xs = Inr cs" | (prox) "cluster_by_proximity cfg xs = Inr cs"
    using run batch strat by (auto simp: cluster_issues_def split: if_splits)
  then show ?thesis
  proof cases
    case hyb
    have "\<forall>c\<in>set cs. ?Q (issues c)"
    proof (rule category_loop_inv[where Q = ?Q and cs = "[]", OF _ _ _ _ hyb[unfolded cluster_hybrid_def]])
      show "\<forall>c\<in>set []. ?Q (issues c)" by simp
    qed (rule gaps_within_single, erule (2) step, erule (2) close)
    moreover have "\<forall>c\<in>set cs. sorted (map get_line (issues c))"
      by (rule category_loop_sorted[OF _ hyb[unfolded cluster_hybrid_def]]) simp
    ultimately show ?thesis by blast
  next
    case prox
    have "\<forall>c\<in>set cs. ?Q (issues c)"
      by (rule cluster_by_proximity_inv[where Q = ?Q, OF _ _ _ prox])
         (rule gaps_within_single, erule (2) step, erule (2) close)
    with cluster_by_proximity_sorted[OF prox] show ?thesis by blast
  qed
qed




lemma cluster_issues_example:
  "cluster_issues default_config [E501 9, E501 1, E501 5]
     = Inr [\<lparr>issues = [E501 1, E501 5, E501 9], start_line = 1, end_line = 9,
             fingerprint = ''105e422f''\<rparr>]"
  by code_simp

lemma cluster_issues_example_cap0:
  "cluster_issues (default_config\<lparr>max_issues_per_cluster := 0\<rparr>) [E501 1]
     = Inr [\<lparr>issues = [E501 1], start_line = 1, end_line = 1, fingerprint = ''172ac801''\<rparr>]"
  by code_simp


subsection \<open>Partition\<close>

text \<open>
  Claim C3. For every issue list and every configuration (proximity, similarity, hybrid,
  or batching disabled) \<open>cluster_issues\<close> returns normally, every occurrence of an input
  issue lies in exactly one output cluster (the clusters' members, taken together, are the
  input as a multiset), no cluster is empty, and for an input without repeated issues the
  clusters are pairwise disjoint.
\<close>

theorem cluster_issues_partition:
  "\<exists>cs. cluster_issues cfg xs = Inr cs
     \<and> mset (concat (map issues cs)) = mset xs
     \<and> (\<forall>c\<in>set cs. issues c \<noteq> [])
     \<and> (distinct xs \<longrightarrow>
          (\<forall>i j. i < j \<and> j < length cs \<longrightarrow> set (issues (cs ! i)) \<inter> set (issues (cs ! j)) = {}))"
proof -
  obtain cs where run: "cluster_issues cfg xs = Inr cs"
    and m: "mset (concat (map issues cs)) = mset xs"
    using cluster_issues_total_mset by blast
  have ne: "\<forall>c\<in>set cs. issues c \<noteq> []" using cluster_issues_nonempty[OF run] .
  have "\<forall>i j. i < j \<and> j < length cs \<longrightarrow> set (issues (cs ! i)) \<inter> set (issues (cs ! j)) = {}"
    if dx: "distinct xs"
  proof (intro allI impI)
    fix i j assume ij: "i < j \<and> j < length cs"
    from m dx have "distinct (concat (map issues cs))" using mset_eq_imp_distinct_iff by blast
    moreover from ne have "\<forall>ys\<in>set (map issues cs). ys \<noteq> []" by simp
    ultimately have "set (map issues cs ! i) \<inter> set (map issues cs ! j) = {}"
      using ij by (intro distinct_concat_disjoint) simp_all
    with ij show "set (issues (cs ! i)) \<inter> set (issues (cs ! j)) = {}" by simp
  qed
  with run m ne show ?thesis by blast
qed

theorem cluster_issues_partition_witness:
  "\<exists>cs. cluster_issues default_config [E501 9, E501 1, E501 5] = Inr cs
     \<and> mset (concat (map issues cs)) = mset [E501 9, E501 1, E501 5]
     \<and> (\<forall>c\<in>set cs. issues c \<noteq> [])
     \<and> (\<forall>i j. i < j \<and> j < length cs \<longrightarrow> set (issues (cs ! i)) \<inter> set (issues (cs ! j)) = {})"
  using cluster_issues_partition[of default_config "[E501 9, E501 1, E501 5]"]
  by (simp add: E501_def)

subsection \<open>Size and distance bounds\<close>

text \<open>
  Claim C8, as stated, fails twice. With the default distance 5 and cap 5, issues on lines
  1, 5 and 9 form one cluster although lines 1 and 9 are 8 apart and the cap was never
  reached: the loop compares each issue with the last member only. With cap 0 a cluster
  still holds one issue, since an empty cluster always takes the next issue.
\<close>

theorem cluster_span_counterexample:
  "cluster_issues default_config [E501 9, E501 1, E501 5]
     = Inr [\<lparr>issues = [E501 1, E501 5, E501 9], start_line = 1, end_line = 9,
             fingerprint = ''105e422f''\<rparr>]
   \<and> cluster_distance default_config < get_line (E501 9) - get_line (E501 1)
   \<and> int (length [E501 1, E501 5, E501 9]) < max_issues_per_cluster default_config
   \<and> cluster_issues (default_config\<lparr>max_issues_per_cluster := 0\<rparr>) [E501 1]
     = Inr [\<lparr>issues = [E501 1], start_line = 1, end_line = 1, fingerprint = ''172ac801''\<rparr>]
   \<and> max_issues_per_cluster (default_config\<lparr>max_issues_per_cluster := 0\<rparr>) < int (length [E501 1])"
  using cluster_issues_example cluster_issues_example_cap0
  by (simp add: default_config_def E501_def get_line_def)

text \<open>
  Claim C8, amended. No output cluster holds more than \<open>max_issues_per_cluster\<close>
  issues, or more than one when that setting is below one; and under the proximity and
  hybrid strategies the members of a cluster are in line order with every two
  consecutive members at most \<open>cluster_distance\<close> lines apart.
\<close>

theorem cluster_size_and_gap_bound:
  assumes run: "cluster_issues cfg xs = Inr cs" and c: "c \<in> set cs"
  shows "int (length (issues c)) \<le> max 1 (max_issues_per_cluster cfg)
     \<and> (batch_similar cfg \<and> clustering_strategy cfg \<noteq> ''similarity'' \<longrightarrow>
          (\<forall>k. Suc k < length (issues c) \<longrightarrow>
             0 \<le> get_line (issues c ! Suc k) - get_line (issues c ! k)
             \<and> get_line (issues c ! Suc k) - get_line (issues c ! k) \<le> cluster_distance cfg))"
proof (intro conjI impI allI)
  show "int (length (issues c)) \<le> max 1 (max_issues_per_cluster cfg)"
    using cluster_issues_size[OF run] c by blast
next
  fix k
  assume b: "batch_similar cfg \<and> clustering_strategy cfg \<noteq> ''similarity''"
    and k: "Suc k < length (issues c)"
  from proximity_gaps[OF run] b c have g: "gaps_within (cluster_distance cfg) (issues c)"
    and s: "sorted (map get_line (issues c))" by blast+
  from s k have "map get_line (issues c) ! k \<le> map get_line (issues c) ! Suc k"
    by (intro sorted_nth_mono) simp_all
  with k show "0 \<le> get_line (issues c ! Suc k) - get_line (issues c ! k)" by simp
  from g k show "get_line (issues c ! Suc k) - get_line (issues c ! k) \<le> cluster_distance cfg"
    by (simp add: gaps_within_def)
qed

theorem cluster_size_and_gap_bound_witness:
  "int (length [E501 1, E501 5, E501 9]) \<le> max 1 (max_issues_per_cluster default_config)
     \<and> 0 \<le> get_line (E501 5) - get_line (E501 1)
     \<and> get_line (E501 5) - get_line (E501 1) \<le> cluster_distance default_config
     \<and> 0 \<le> get_line (E501 9) - get_line (E501 5)
     \<and> get_line (E501 9) - get_line (E501 5) \<le> cluster_distance default_config"
proof -
  let ?c = "\<lparr>issues = [E501 1, E501 5, E501 9], start_line = 1, end_line = 9,
             fingerprint = ''105e422f''\<rparr>"
  have "?c \<in> set [?c]" by simp
  from cluster_size_and_gap_bound[OF cluster_issues_example this]
  have a: "int (length [E501 1, E501 5, E501 9]) \<le> max 1 (max_issues_per_cluster default_config)"
    and b: "\<forall>k. Suc k < length [E501 1, E501 5, E501 9] \<longrightarrow>
            0 \<le> get_line ([E501 1, E501 5, E501 9] ! Suc k) - get_line ([E501 1, E501 5, E501 9] ! k)
            \<and> get_line ([E501 1, E501 5, E501 9] ! Suc k) - get_line ([E501 1, E501 5, E501 9] ! k)
                \<le> cluster_distance default_config"
    by (simp_all add: default_config_def)
  from b[rule_format, of 0] b[rule_format, of 1] a show ?thesis by simp
qed

subsection \<open>Determinism\<close>






section \<open>Properties of the Simple-Fix Predictor\<close>

subsection \<open>Searching, splitting and joining\<close>

lemma startswith_iff: "startswith s p \<longleftrightarrow> (\<exists>b. s = p @ b)"
  by (induction s p rule: startswith.induct) auto

lemma py_in_iff: "py_in sub s \<longleftrightarrow> (\<exists>a b. s = a @ sub @ b)"
proof (induction s)
  case Nil
  then show ?case by auto
next
  case (Cons c cs)
  show ?case
  proof
    assume "py_in sub (c # cs)"
    then consider "startswith (c # cs) sub" | "py_in sub cs" by auto
    then show "\<exists>a b. c # cs = a @ sub @ b"
    proof cases
      case 1
      then obtain b where "c # cs = sub @ b" by (auto simp: startswith_iff)
      then have "c # cs = [] @ sub @ b" by simp
      then show ?thesis by blast
    next
      case 2
      with Cons.IH obtain a b where "cs = a @ sub @ b" by blast
      then have "c # cs = (c # a) @ sub @ b" by simp
      then show ?thesis by blast
    qed
  next
    assume "\<exists>a b. c # cs = a @ sub @ b"
    then obtain a b where e: "c # cs = a @ sub @ b" by blast
    show "py_in sub (c # cs)"
    proof (cases a)
      case Nil
      with e have "startswith (c # cs) sub" by (auto simp: startswith_iff)
      then show ?thesis by simp
    next
      case (Cons a1 as)
      with e have "cs = as @ sub @ b" by simp
      with Cons.IH have "py_in sub cs" by blast
      then show ?thesis by simp
    qed
  qed
qed

lemma join_Cons: "join sep (x # xs) = x @ (if xs = [] then [] else sep @ join sep xs)"
  by (cases xs) simp_all

lemma join_contains: "x \<in> set xs \<Longrightarrow> \<exists>a b. join sep xs = a @ x @ b"
proof (induction xs)
  case Nil
  then show ?case by simp
next
  case (Cons y ys)
  show ?case
  proof (cases "x = y")
    case True
    have "join sep (y # ys) = [] @ y @ (if ys = [] then [] else sep @ join sep ys)"
      by (simp add: join_Cons)
    with True show ?thesis by blast
  next
    case False
    with Cons.prems have "x \<in> set ys" by simp
    with Cons.IH obtain a b where j: "join sep ys = a @ x @ b" by blast
    from \<open>x \<in> set ys\<close> have "ys \<noteq> []" by auto
    then have "join sep (y # ys) = (y @ sep @ a) @ x @ b" using j by (simp add: join_Cons)
    then show ?thesis by blast
  qed
qed

lemma py_in_join: "x \<in> set xs \<Longrightarrow> py_in x (join sep xs)"
  using join_contains[of x xs sep] by (simp add: py_in_iff)

lemma apply_import_fix_contains: "py_in import_stmt (apply_import_fix content import_stmt)"
  by (simp add: apply_import_fix_def Let_def list_insert_def py_in_join)

lemma split_on_nonempty: "split_on c s \<noteq> []"
  by (induction s) (auto split: list.splits)

lemma split_on_no_sep: "x \<in> set (split_on c s) \<Longrightarrow> c \<notin> set x"
proof (induction s arbitrary: x)
  case Nil
  then show ?case by simp
next
  case (Cons d ds)
  show ?case
  proof (cases "d = c")
    case True
    with Cons show ?thesis by auto
  next
    case False
    obtain y ys where s: "split_on c ds = y # ys" using split_on_nonempty[of c ds] by (cases "split_on c ds") auto
    with False Cons.prems have "x = d # y \<or> x \<in> set ys" by simp
    with Cons.IH[of y] Cons.IH[of x] s False show ?thesis by auto
  qed
qed

lemma hd_split_on: "hd (split_on c s) = takeWhile (\<lambda>d. d \<noteq> c) s"
  by (induction s) (auto split: list.splits simp: split_on_nonempty)

lemma split_on_append_sep:
  "c \<notin> set x \<Longrightarrow> split_on c (x @ c # s) = x # split_on c s"
  by (induction x) (auto split: list.splits)

lemma split_on_no_sep_id: "c \<notin> set x \<Longrightarrow> split_on c x = [x]"
  by (induction x) (auto split: list.splits)

lemma split_on_join:
  "xs \<noteq> [] \<Longrightarrow> \<forall>x\<in>set xs. c \<notin> set x \<Longrightarrow> split_on c (join [c] xs) = xs"
proof (induction xs)
  case Nil
  then show ?case by simp
next
  case (Cons x xs)
  show ?case
  proof (cases "xs = []")
    case True
    with Cons.prems show ?thesis by (simp add: split_on_no_sep_id)
  next
    case False
    with Cons have "split_on c (join [c] xs) = xs" by simp
    with False Cons.prems show ?thesis by (simp add: join_Cons split_on_append_sep)
  qed
qed

lemma strip_decomp:
  "\<exists>lead trail. pre = lead @ strip pre @ trail \<and> (\<forall>c\<in>set lead. is_space c)
      \<and> (strip pre \<noteq> [] \<longrightarrow> \<not> is_space (hd (strip pre)))"
proof -
  let ?lead = "takeWhile is_space pre"
  let ?mid = "dropWhile is_space pre"
  let ?trail = "rev (takeWhile is_space (rev ?mid))"
  have "rev (takeWhile is_space (rev ?mid) @ dropWhile is_space (rev ?mid)) = rev (rev ?mid)"
    by (simp only: takeWhile_dropWhile_id)
  then have "rev (dropWhile is_space (rev ?mid)) @ ?trail = ?mid"
    by (simp only: rev_append rev_rev_ident)
  then have mid: "?mid = strip pre @ ?trail" by (simp only: strip_def)
  have "?lead @ ?mid = pre" by (rule takeWhile_dropWhile_id)
  with mid have d: "pre = ?lead @ strip pre @ ?trail" by metis
  have l: "\<forall>c\<in>set ?lead. is_space c" by (auto dest: set_takeWhileD)
  have h: "\<not> is_space (hd (strip pre))" if ne: "strip pre \<noteq> []"
  proof -
    have "?mid \<noteq> []"
    proof
      assume "?mid = []"
      with mid have "strip pre @ ?trail = []" by (rule trans[OF sym])
      with ne show False by simp
    qed
    then have "\<not> is_space (hd ?mid)" by (rule hd_dropWhile)
    moreover from ne mid have "hd ?mid = hd (strip pre)" by (metis hd_append2)
    ultimately show ?thesis by simp
  qed
  from d l h show ?thesis by blast
qed

lemma replace_first_empty: "replace_first s [] new = new @ s"
  by (cases s) simp_all

lemma replace_first_here: "v \<noteq> [] \<Longrightarrow> replace_first (v @ t) v new = new @ t"
proof -
  assume "v \<noteq> []"
  then obtain c cs where "v @ t = c # cs" by (cases v) auto
  moreover have "startswith (v @ t) v" by (auto simp: startswith_iff)
  ultimately have "replace_first (v @ t) v new = new @ drop (length v) (v @ t)" by simp
  then show ?thesis by simp
qed

lemma replace_first_skip:
  "\<forall>c\<in>set ws. is_space c \<Longrightarrow> v \<noteq> [] \<Longrightarrow> \<not> is_space (hd v)
     \<Longrightarrow> replace_first (ws @ v @ t) v new = ws @ new @ t"
proof (induction ws)
  case Nil
  then show ?case by (simp add: replace_first_here)
next
  case (Cons w ws)
  from Cons.prems have "w \<noteq> hd v" by auto
  with Cons.prems(2) have "\<not> startswith (w # ws @ v @ t) v" by (cases v) auto
  with Cons show ?case by simp
qed

lemma replace_var_shape:
  "\<exists>a b. l = a @ b \<and> (\<forall>c\<in>set a. is_space c)
      \<and> replace_first l (strip (takeWhile (\<lambda>d. d \<noteq> CHR ''='') l))
            (''_'' @ strip (takeWhile (\<lambda>d. d \<noteq> CHR ''='') l)) = a @ CHR ''_'' # b"
proof -
  let ?pre = "takeWhile (\<lambda>d. d \<noteq> CHR ''='') l"
  let ?rest = "dropWhile (\<lambda>d. d \<noteq> CHR ''='') l"
  let ?v = "strip ?pre"
  obtain lead trail where d: "?pre = lead @ ?v @ trail" and sp: "\<forall>c\<in>set lead. is_space c"
    and h: "?v \<noteq> [] \<longrightarrow> \<not> is_space (hd ?v)"
    using strip_decomp[of ?pre] by blast
  show ?thesis
  proof (cases "?v = []")
    case True
    then have "replace_first l ?v (''_'' @ ?v) = [] @ CHR ''_'' # l"
      by (simp add: replace_first_empty)
    moreover have "l = [] @ l" by simp
    ultimately show ?thesis by (metis empty_iff empty_set)
  next
    case False
    have "?pre @ ?rest = l" by (rule takeWhile_dropWhile_id)
    moreover from d have "?pre @ ?rest = (lead @ ?v @ trail) @ ?rest" by (rule arg_cong)
    ultimately have "l = (lead @ ?v @ trail) @ ?rest" by (rule trans[OF sym])
    then have l: "l = lead @ ?v @ (trail @ ?rest)" by (simp only: append_assoc)
    from replace_first_skip[OF sp False, of "trail @ ?rest" "''_'' @ ?v"] h False
    have "replace_first (lead @ ?v @ (trail @ ?rest)) ?v (''_'' @ ?v) = lead @ (''_'' @ ?v) @ (trail @ ?rest)"
      by blast
    with l have "replace_first l ?v (''_'' @ ?v) = lead @ CHR ''_'' # (?v @ trail @ ?rest)" by simp
    with l sp show ?thesis by blast
  qed
qed

lemma not_space_underscore: "\<not> is_space (CHR ''_'')"
  by (simp add: is_space_def)

lemma not_space_equals: "\<not> is_space (CHR ''='')"
  by (simp add: is_space_def)

lemma strip_underscore:
  assumes sp: "\<forall>c\<in>set a. is_space c"
  shows "startswith (strip (takeWhile (\<lambda>d. d \<noteq> CHR ''='') (a @ CHR ''_'' # b))) ''_''"
proof -
  from sp not_space_equals have "\<forall>c\<in>set a. c \<noteq> CHR ''=''" by blast
  then have t: "takeWhile (\<lambda>d. d \<noteq> CHR ''='') (a @ CHR ''_'' # b)
      = a @ CHR ''_'' # takeWhile (\<lambda>d. d \<noteq> CHR ''='') b" by (simp add: takeWhile_append2)
  let ?w = "takeWhile (\<lambda>d. d \<noteq> CHR ''='') b"
  from sp have "dropWhile is_space (a @ CHR ''_'' # ?w) = CHR ''_'' # ?w"
    by (simp add: dropWhile_append2 not_space_underscore)
  then have "strip (a @ CHR ''_'' # ?w) = rev (dropWhile is_space (rev ?w @ ''_''))"
    by (simp add: strip_def)
  also have "\<dots> = CHR ''_'' # rev (if \<forall>x\<in>set (rev ?w). is_space x then [] else dropWhile is_space (rev ?w))"
    by (simp add: dropWhile_append not_space_underscore)
  finally show ?thesis using t by simp
qed

lemma predict_F821_again:
  assumes r: "get_rule i = ''F821''" and p: "predict_simple_fix cfg i c = Some c'"
  shows "predict_simple_fix cfg i c' = None"
proof -
  from p r obtain a name rest stmt where
    s: "split_on (CHR ''`'') (get_message i) = a # name # rest"
    and m: "map_of f821_imports name = Some stmt"
    and c': "c' = apply_import_fix c stmt"
    by (auto simp: predict_simple_fix_def split: if_splits list.splits option.splits)
  from c' have "py_in stmt c'" by (simp add: apply_import_fix_contains)
  with r s m show ?thesis by (simp add: predict_simple_fix_def)
qed

lemma predict_F841_again:
  assumes r: "get_rule i = ''F841''" and p: "predict_simple_fix cfg i c = Some c'"
  shows "predict_simple_fix cfg i c' = None"
proof -
  let ?lines = "split_on newline c"
  let ?n = "nat (get_line i - 1)"
  let ?l = "?lines ! ?n"
  let ?v = "strip (takeWhile (\<lambda>d. d \<noteq> CHR ''='') ?l)"
  let ?l' = "replace_first ?l ?v (''_'' @ ?v)"
  from p r have en: "predict_simple_fixes cfg"
    and rng: "0 \<le> get_line i - 1" "get_line i - 1 < int (length ?lines)"
    and c': "c' = join [newline] (?lines[?n := ?l'])"
    by (auto simp: predict_simple_fix_def Let_def hd_split_on split: if_splits)
  from rng have n: "?n < length ?lines" by simp
  obtain a b where ab: "?l = a @ b" and sp: "\<forall>ch\<in>set a. is_space ch" and l': "?l' = a @ CHR ''_'' # b"
    using replace_var_shape[of ?l] by blast
  from n have "?l \<in> set ?lines" by simp
  then have "newline \<notin> set ?l" by (rule split_on_no_sep)
  with ab l' have nl: "newline \<notin> set ?l'" by (auto simp: newline_def)
  have "\<forall>x\<in>set (?lines[?n := ?l']). newline \<notin> set x"
  proof
    fix x assume "x \<in> set (?lines[?n := ?l'])"
    then have "x = ?l' \<or> x \<in> set ?lines" using set_update_subset_insert[of ?lines ?n ?l'] by auto
    with nl show "newline \<notin> set x" by (auto dest: split_on_no_sep)
  qed
  moreover have "?lines[?n := ?l'] \<noteq> []" by (simp add: split_on_nonempty)
  ultimately have sj: "split_on newline c' = ?lines[?n := ?l']"
    unfolding c' by (rule split_on_join[rotated])
  from n have nth: "(?lines[?n := ?l']) ! ?n = ?l'" by simp
  have "startswith (strip (takeWhile (\<lambda>d. d \<noteq> CHR ''='') ?l')) ''_''"
    unfolding l' using sp by (rule strip_underscore)
  with r sj nth show ?thesis
    by (simp add: predict_simple_fix_def Let_def hd_split_on)
qed

lemma predict_unused_x:
  "predict_simple_fix default_config unused_x sample_source
     = Some (join [newline] [''import os'', '''', ''def f():'', ''    _x = 1'',
                             ''    return json.dumps({})''])"
  by code_simp

lemma predict_undefined_json:
  "predict_simple_fix default_config undefined_json sample_source
     = Some (join [newline] [''import os'', '''', ''import json'', ''def f():'', ''    x = 1'',
                             ''    return json.dumps({})''])"
  by code_simp

subsection \<open>Idempotence\<close>

text \<open>
  Claim C9. If \<open>predict_simple_fix\<close> returns fixed content for an issue, then running
  it again for the same issue on that content returns no prediction: the inserted
  import statement is found in the new content, and the rewritten assignment target
  now starts with an underscore.
\<close>

theorem predict_simple_fix_idempotent:
  "predict_simple_fix cfg i c = Some c' \<Longrightarrow> predict_simple_fix cfg i c' = None"
proof -
  assume p: "predict_simple_fix cfg i c = Some c'"
  then consider "get_rule i = ''F821''" | "get_rule i = ''F841''"
    by (auto simp: predict_simple_fix_def split: if_splits)
  then show ?thesis
  proof cases
    case 1
    then show ?thesis using p by (rule predict_F821_again)
  next
    case 2
    then show ?thesis using p by (rule predict_F841_again)
  qed
qed

theorem predict_simple_fix_idempotent_witness:
  "predict_simple_fix default_config unused_x sample_source
     = Some (join [newline] [''import os'', '''', ''def f():'', ''    _x = 1'',
                             ''    return json.dumps({})''])
   \<and> predict_simple_fix default_config unused_x
        (join [newline] [''import os'', '''', ''def f():'', ''    _x = 1'',
                         ''    return json.dumps({})'']) = None
   \<and> predict_simple_fix default_config undefined_json sample_source
     = Some (join [newline] [''import os'', '''', ''import json'', ''def f():'', ''    x = 1'',
                             ''    return json.dumps({})''])
   \<and> predict_simple_fix default_config undefined_json
        (join [newline] [''import os'', '''', ''import json'', ''def f():'', ''    x = 1'',
                         ''    return json.dumps({})'']) = None"
  using predict_unused_x predict_undefined_json
    predict_simple_fix_idempotent[OF predict_unused_x]
    predict_simple_fix_idempotent[OF predict_undefined_json]
  by (intro conjI)

section \<open>Properties of AutoFixer\<close>

lemma sample_backup_name:
  "path_join ''/home/u/.claude/quality-backups'' (path_name ''src/a.py'' @ ''.'' @ str_int 1000 @ ''.bak'')
     = sample_backup"
  by code_simp

lemma sample_backup_other: "''src/a.py'' \<noteq> sample_backup"
  by (simp add: sample_backup_def)

lemma create_backup_Some:
  assumes "fs p = Some c" and "bp = path_join d (path_name p @ ''.'' @ str_int t @ ''.bak'')"
    and "p \<noteq> bp"
  shows "create_backup d p t fs = (Some bp, fs(bp \<mapsto> c))"
  using assms by (simp add: create_backup_def copy2_def Let_def)

lemma sample_backup_created:
  "create_backup ''/home/u/.claude/quality-backups'' ''src/a.py'' 1000 sample_files
     = (Some sample_backup, sample_files(sample_backup \<mapsto> ''x = 1''))"
  by (rule create_backup_Some[OF _ sample_backup_name[symmetric] sample_backup_other])
     (simp add: sample_files_def)

lemma sample_fix_times_out:
  "run_auto_fix_body hanging_fix (Some sample_backup) ''src/a.py'' ''ruff'' [''ruff'', ''--fix'']
       (sample_files(sample_backup \<mapsto> ''x = 1''))
     = (Inl (TimeoutExpired ''Command timed out after 30 seconds''),
        (sample_files(sample_backup \<mapsto> ''x = 1''))(''src/a.py'' \<mapsto> ''x = ''))"
  by (simp add: run_auto_fix_body_def read_text_def hanging_fix_def sample_files_def
      sample_backup_def)

text \<open>
  Claim C10. If \<open>create_backup\<close> returned a backup path and the \<open>try\<close> block of
  \<open>run_auto_fix\<close> raises (the fix command times out or cannot be run, or the file cannot
  be read), while the fix command left the backup file as it was, then \<open>run_auto_fix\<close>
  returns normally with \<open>fixed = False\<close> and an error message, and the target file holds
  exactly the content it had before the call.
\<close>

theorem run_auto_fix_restores:
  assumes backup: "create_backup backup_dir file_path now_ms fs = (Some bp, fs1)"
    and raised: "run_auto_fix_body E (Some bp) file_path linter fix_cmd fs1 = (Inl e, fs2)"
    and kept: "fs2 bp = fs1 bp"
  shows "\<exists>r fs'. run_auto_fix E backup_dir now_ms file_path linter fix_cmd fs = (Inr r, fs')
     \<and> fs' file_path = fs file_path \<and> fs file_path \<noteq> None
     \<and> \<not> fixed r \<and> fix_error r \<noteq> None"
proof -
  from backup obtain c where c: "fs file_path = Some c" and ne: "file_path \<noteq> bp"
    and fs1: "fs1 = fs(bp \<mapsto> c)"
    by (auto simp: create_backup_def copy2_def Let_def split: if_splits option.splits sum.splits)
  from fs1 kept have b2: "fs2 bp = Some c" by simp
  with ne have cp: "copy2 fs2 bp file_path = Inr (fs2(file_path \<mapsto> c))"
    by (simp add: copy2_def)
  let ?res = "restore_on_error (Some bp) file_path e fs2"
  from b2 cp have snd_ok: "snd ?res = fs2(file_path \<mapsto> c)"
    by (simp add: restore_on_error_def Let_def)
  from b2 cp obtain r where r: "fst ?res = Inr r" "\<not> fixed r" "fix_error r \<noteq> None"
    by (cases e) (simp_all add: restore_on_error_def Let_def)
  from backup raised have "run_auto_fix E backup_dir now_ms file_path linter fix_cmd fs = ?res"
    by (simp add: run_auto_fix_def)
  with r snd_ok c show ?thesis by (cases ?res) auto
qed

theorem run_auto_fix_restores_witness:
  "\<exists>r fs'. run_auto_fix hanging_fix ''/home/u/.claude/quality-backups'' 1000 ''src/a.py''
              ''ruff'' [''ruff'', ''--fix''] sample_files = (Inr r, fs')
     \<and> fs' ''src/a.py'' = Some ''x = 1'' \<and> \<not> fixed r \<and> fix_error r \<noteq> None"
proof -
  have kept: "((sample_files(sample_backup \<mapsto> ''x = 1''))(''src/a.py'' \<mapsto> ''x = '')) sample_backup
      = (sample_files(sample_backup \<mapsto> ''x = 1'')) sample_backup"
    by (simp add: sample_backup_def)
  from run_auto_fix_restores[OF sample_backup_created sample_fix_times_out kept]
  show ?thesis by (simp add: sample_files_def)
qed

section \<open>Properties of the fix session\<close>

subsection \<open>Predicted fixes on the path without worktrees\<close>

text \<open>
  Claim C1 on a concrete session without worktrees. The file has an unused variable on
  line 2, which the predictor fixes in memory (\<open>x\<close> becomes \<open>_x\<close>), and an undefined
  name on line 3, which the agent fixes on disk. The session reports success with one
  prediction and one agent call, and writes the agent's version of the file: line 2 is
  back to \<open>x = 1\<close>. The predicted content never reaches the disk before the agent runs,
  and \<open>_merge_cluster_fixes\<close> returns what the last agent run left there.
\<close>

theorem in_memory_session_drops_prediction:
  "predict_simple_fix default_config unused_x2 session_source
     = Some (join [newline] [''def f():'', ''    _x = 1'', ''    return y''])
   \<and> (case fix_single_file working_agent default_config ''/repo/a.py'' [unused_x2, undefined_y]
               repo_world of
         (result, w) \<Rightarrow> (result, disk w ''/repo/a.py''))
     = (\<lparr>fr_success = True, fr_error = None,
         fr_message = Some ''Fixed 2 issues with 1 predictions and 1 Claude calls'',
         fr_predicted = Some 1, fr_worktrees_used = None, fr_claude_calls = Some 1,
         fr_file = None\<rparr>,
        Some (join [newline] [''def f():'', ''    x = 1'', ''    return 0'']))"
  by code_simp

subsection \<open>Cluster fix attempts\<close>

lemma run_trace:
  "run E cmd w = (out, w') \<Longrightarrow> trace w' = trace w @ [Subprocess cmd out]
     \<and> active_worktrees w' = active_worktrees w \<and> fix_attempts w' = fix_attempts w
     \<and> uuid_count w' = uuid_count w"
  by (auto simp: run_def split: prod.splits)

lemma new_events_append: "trace w' = trace w @ evs \<Longrightarrow> new_events w w' = evs"
  by (simp add: new_events_def)

lemma failure_result_simps [simp]:
  "\<not> cr_success (failure_result c e)" "cr_error (failure_result c e) = Some e"
  by (simp_all add: failure_result_def)

lemma fix_cluster_with_claude_outcome:
  assumes "fix_cluster_with_claude E cfg file_path cluster content w = (r, w')"
  shows "\<exists>out. trace w' = trace w @ [Subprocess (claude_fix cfg (create_cluster_prompt E file_path cluster content) file_path) out]
      \<and> (cr_success r \<longrightarrow> (\<exists>res. out = Inr res \<and> returncode res = 0)
            \<and> cr_fixed_content r = disk w' file_path \<and> disk w' file_path \<noteq> None)
      \<and> (\<not> cr_success r \<longrightarrow> cr_error r \<noteq> None)
      \<and> active_worktrees w' = active_worktrees w"
proof -
  let ?cmd = "claude_fix cfg (create_cluster_prompt E file_path cluster content) file_path"
  obtain out w1 where r1: "run E ?cmd w = (out, w1)" by (cases "run E ?cmd w")
  note t = run_trace[OF r1]
  show ?thesis
  proof (cases out)
    case (Inl e)
    with assms r1 t show ?thesis by (auto simp: fix_cluster_with_claude_def Let_def)
  next
    case (Inr res)
    with assms r1 t show ?thesis
      by (auto simp: fix_cluster_with_claude_def Let_def read_text_def split: if_splits option.splits)
  qed
qed

lemma step_ok_plain:
  "take 1 (argv cmd) \<noteq> [''claude''] \<Longrightarrow> take 3 (argv cmd) \<noteq> [''git'', ''worktree'', ''add'']
     \<Longrightarrow> step_ok (Subprocess cmd (Inr res))"
  by (simp add: step_ok_def)

lemma step_ok_git_add [simp]: "step_ok (Subprocess (git_add rel p) (Inr res))"
  by (simp add: step_ok_def git_add_def)

lemma step_ok_git_diff [simp]: "step_ok (Subprocess (git_diff_head rel p) (Inr res))"
  by (simp add: step_ok_def git_diff_head_def)

lemma step_ok_claude [simp]:
  "step_ok (Subprocess (claude_fix cfg prompt fp) (Inr res)) \<longleftrightarrow> returncode res = 0"
  by (simp add: step_ok_def claude_fix_def)

lemma step_ok_worktree_add [simp]:
  "step_ok (Subprocess (worktree_add base p) (Inr res)) \<longleftrightarrow> returncode res = 0"
  by (simp add: step_ok_def worktree_add_def)

lemma step_ok_raised [simp]: "\<not> step_ok (Subprocess cmd (Inl e))"
  by (simp add: step_ok_def)

lemma worktree_fix_body_outcome:
  assumes b: "worktree_fix_body E cfg fp cl base pf p w = (Inr r, w')"
  shows "(\<not> cr_success r \<longrightarrow> cr_error r \<noteq> None)
     \<and> (cr_success r \<longrightarrow>
          (\<exists>evs. trace w' = trace w @ evs \<and> list_all step_ok evs)
          \<and> (\<exists>rel. relative_to fp base = Inr rel \<and> disk w (path_join p rel) \<noteq> None
                \<and> cr_rel_path r = Some rel)
          \<and> cr_worktree_path r = Some p \<and> cr_patch r \<noteq> None \<and> cr_fixed_content r \<noteq> None
          \<and> active_worktrees w' = active_worktrees w)"
proof -
  from b obtain rel where rel: "relative_to fp base = Inr rel"
    by (cases "relative_to fp base") (auto simp: worktree_fix_body_def)
  let ?wf = "path_join p rel"
  show ?thesis
  proof (cases "disk w ?wf")
    case None
    with b rel show ?thesis by (auto simp: worktree_fix_body_def Let_def)
  next
    case (Some content0)
    define staged where "staged =
       (if pf \<noteq> [] then
          (let worktree_content = snd (last pf);
               w1 = w\<lparr>disk := write_text (disk w) ?wf worktree_content\<rparr>
           in case run E (git_add rel p) w1 of
                (Inl e, w2) \<Rightarrow> (Inl e, w2)
              | (Inr r, w2) \<Rightarrow> (Inr worktree_content, w2))
        else (Inr content0, w))"
    obtain so w2 where st: "staged = (so, w2)" by (cases staged)
    from b rel Some st obtain wc where so: "so = Inr wc"
      by (cases so) (auto simp: worktree_fix_body_def Let_def read_text_def staged_def)
    have t2: "\<exists>evs. trace w2 = trace w @ evs \<and> list_all step_ok evs
        \<and> active_worktrees w2 = active_worktrees w"
    proof (cases "pf = []")
      case True
      with st so show ?thesis by (simp add: staged_def)
    next
      case False
      let ?w1 = "w\<lparr>disk := write_text (disk w) ?wf (snd (last pf))\<rparr>"
      obtain o1 w1' where r1: "run E (git_add rel p) ?w1 = (o1, w1')"
        by (cases "run E (git_add rel p) ?w1")
      with st so False obtain res where "o1 = Inr res" "w1' = w2"
        by (cases o1) (auto simp: staged_def Let_def)
      with run_trace[OF r1] show ?thesis by simp
    qed
    obtain r0 w3 where c: "fix_cluster_with_claude E cfg ?wf cl wc w2 = (r0, w3)"
      by (cases "fix_cluster_with_claude E cfg ?wf cl wc w2")
    note co = fix_cluster_with_claude_outcome[OF c]
    have unfold: "worktree_fix_body E cfg fp cl base pf p w =
        (if cr_success r0 then
           (case run E (git_diff_head rel p) w3 of
              (Inl e, w4) \<Rightarrow> (Inl e, w4)
            | (Inr patch_result, w4) \<Rightarrow>
                (Inr (r0\<lparr>cr_patch := Some (stdout patch_result),
                         cr_worktree_path := Some p, cr_rel_path := Some rel\<rparr>), w4))
         else (Inr r0, w3))"
      using rel Some st so c
      by (simp add: worktree_fix_body_def Let_def read_text_def staged_def[symmetric])
    show ?thesis
    proof (cases "cr_success r0")
      case False
      with b unfold have "r = r0" by simp
      with False co show ?thesis by simp
    next
      case True
      obtain o4 w4 where r4: "run E (git_diff_head rel p) w3 = (o4, w4)"
        by (cases "run E (git_diff_head rel p) w3")
      with b unfold True obtain pr where o4: "o4 = Inr pr"
        and r: "r = r0\<lparr>cr_patch := Some (stdout pr), cr_worktree_path := Some p, cr_rel_path := Some rel\<rparr>"
        and w': "w' = w4"
        by (cases o4) auto
      from t2 obtain evs where e2: "trace w2 = trace w @ evs" "list_all step_ok evs"
        "active_worktrees w2 = active_worktrees w" by blast
      from co True obtain res where e3: "trace w3 = trace w2 @ [Subprocess (claude_fix cfg (create_cluster_prompt E ?wf cl wc) ?wf) (Inr res)]"
        "returncode res = 0" "cr_fixed_content r0 \<noteq> None" "active_worktrees w3 = active_worktrees w2"
        by auto
      from run_trace[OF r4] o4 have e4: "trace w4 = trace w3 @ [Subprocess (git_diff_head rel p) (Inr pr)]"
        "active_worktrees w4 = active_worktrees w3" by simp_all
      from e2 e3 e4 have "trace w4 = trace w @ (evs @ [Subprocess (claude_fix cfg (create_cluster_prompt E ?wf cl wc) ?wf) (Inr res), Subprocess (git_diff_head rel p) (Inr pr)])"
        by simp
      moreover from e2 e3 have "list_all step_ok (evs @ [Subprocess (claude_fix cfg (create_cluster_prompt E ?wf cl wc) ?wf) (Inr res), Subprocess (git_diff_head rel p) (Inr pr)])"
        by simp
      ultimately have "\<exists>evs. trace w' = trace w @ evs \<and> list_all step_ok evs"
        using w' by blast
      with r True rel Some e2 e3 e4 w' show ?thesis by simp
    qed
  qed
qed

lemma created_append [simp]: "created (xs @ ys) = created xs @ created ys"
  by (simp add: created_def)

lemma discarded_append [simp]: "discarded (xs @ ys) = discarded xs @ discarded ys"
  by (simp add: discarded_def)

lemma scheduling_append [simp]: "scheduling (xs @ ys) = scheduling xs @ scheduling ys"
  by (simp add: scheduling_def)

lemma created_Nil [simp]: "created [] = []" by (simp add: created_def)

lemma discarded_Nil [simp]: "discarded [] = []" by (simp add: discarded_def)

lemma scheduling_Nil [simp]: "scheduling [] = []" by (simp add: scheduling_def)

lemma create_worktree_outcome:
  assumes c: "create_worktree_for_cluster E base cl w = (po, w')"
  shows "(po = None \<longrightarrow> active_worktrees w' = active_worktrees w
            \<and> (\<exists>evs. trace w' = trace w @ evs \<and> created evs = [] \<and> discarded evs = []
                  \<and> scheduling evs = []))
     \<and> (\<forall>p. po = Some p \<longrightarrow> active_worktrees w' = active_worktrees w @ [p]
            \<and> (\<exists>res. trace w' = trace w @ [Subprocess (worktree_add base p) (Inr res)]
                  \<and> returncode res = 0))"
proof -
  let ?w0 = "w\<lparr>uuid_count := uuid_count w + 1\<rparr>"
  let ?dir = "path_join (path_join base ''.claude'') ''worktrees''"
  let ?p = "path_join ?dir (''linter-fix-'' @ fingerprint cl @ ''-'' @ take 8 (uuid4_hex E (uuid_count w)))"
  show ?thesis
  proof (cases "mkdir_parents E ?dir (disk ?w0)")
    case (Some e)
    with c have "po = None" "w' = ?w0" by (simp_all add: create_worktree_for_cluster_def Let_def)
    then have "po = None" "active_worktrees w' = active_worktrees w" "trace w' = trace w @ []" by simp_all
    then show ?thesis by (metis created_Nil discarded_Nil scheduling_Nil option.distinct(1))
  next
    case None
    obtain out w1 where r: "run E (worktree_add base ?p) ?w0 = (out, w1)"
      by (cases "run E (worktree_add base ?p) ?w0")
    note t = run_trace[OF r]
    have plain: "created [Subprocess (worktree_add base ?p) out'] = [] \<and> scheduling [Subprocess (worktree_add base ?p) out'] = []
       \<and> discarded [Subprocess (worktree_add base ?p) out'] = []"
      if "\<forall>res. out' = Inr res \<longrightarrow> returncode res \<noteq> 0" for out'
      using that by (cases out') (auto simp: created_def discarded_def scheduling_def worktree_add_def)
    show ?thesis
    proof (cases out)
      case (Inl e)
      with c None r have "po = None" "w' = w1" by (simp_all add: create_worktree_for_cluster_def Let_def)
      with t Inl plain[of out] show ?thesis by auto
    next
      case (Inr res)
      show ?thesis
      proof (cases "returncode res = 0")
        case True
        with c None r Inr have "po = Some ?p" "w' = w1\<lparr>active_worktrees := active_worktrees w1 @ [?p]\<rparr>"
          by (simp_all add: create_worktree_for_cluster_def Let_def)
        with t Inr True show ?thesis by auto
      next
        case False
        with c None r Inr have "po = None" "w' = w1" by (simp_all add: create_worktree_for_cluster_def Let_def)
        with t Inr False plain[of out] show ?thesis by auto
      qed
    qed
  qed
qed

text \<open>
  Claim C6, as stated, fails for one of its five error conditions: when \<open>git diff\<close>
  exits with a non-zero code the attempt still reports success, with whatever the
  command printed (here nothing) as its patch. The exit code of the diff is never read.
\<close>

theorem diff_failure_counterexample:
  "fst (fix_cluster_with_worktree failing_diff_agent default_config ''/repo/a.py''
          (singleton_cluster undefined_y) ''/repo'' [] repo_world)
     = \<lparr>cr_success = True, cr_cluster = singleton_cluster undefined_y, cr_error = None,
        cr_fixed_content = Some (join [newline] [''def f():'', ''    x = 1'', ''    return 0'']),
        cr_patch = Some [],
        cr_worktree_path = Some ''/repo/.claude/worktrees/linter-fix-F821:3-01234567'',
        cr_rel_path = Some ''a.py''\<rparr>
   \<and> last (trace (snd (fix_cluster_with_worktree failing_diff_agent default_config ''/repo/a.py''
          (singleton_cluster undefined_y) ''/repo'' [] repo_world)))
     = Subprocess \<lparr>argv = [''git'', ''diff'', ''HEAD'', ''a.py''],
                   cwd = Some ''/repo/.claude/worktrees/linter-fix-F821:3-01234567'',
                   cmd_input = None, time_limit = None\<rparr>
         (Inr \<lparr>returncode = 128, stdout = [], stderr = ''fatal: bad revision HEAD''\<rparr>)"
  by code_simp

text \<open>
  Claim C6, amended. Neither \<open>fix_cluster_with_worktree\<close> nor
  \<open>fix_cluster_with_claude\<close> lets an exception out: both always return a result. A
  result with \<open>success = False\<close> carries an error string. A result with
  \<open>success = True\<close> is only returned when no step failed in one of these ways: the
  worktree was created, the target file was present in it, no subprocess raised (no
  timeout of the agent, no exception while staging or extracting the diff), and the
  agent and \<open>git worktree add\<close> exited with code 0. The exit code of \<open>git diff\<close> is
  not among the conditions.
\<close>

theorem cluster_fix_failures_are_results:
  assumes wt: "fix_cluster_with_worktree E cfg fp cl base pf w = (r, w')"
    and cl: "fix_cluster_with_claude E cfg fp cl content w = (r0, w0)"
  shows "(\<not> cr_success r \<longrightarrow> cr_error r \<noteq> None)
     \<and> (cr_success r \<longrightarrow>
          list_all step_ok (new_events w w')
          \<and> (\<exists>p rel w1. create_worktree_for_cluster E base cl w = (Some p, w1)
                \<and> relative_to fp base = Inr rel \<and> disk w1 (path_join p rel) \<noteq> None
                \<and> cr_worktree_path r = Some p \<and> cr_rel_path r = Some rel)
          \<and> cr_patch r \<noteq> None \<and> cr_fixed_content r \<noteq> None)
     \<and> (\<not> cr_success r0 \<longrightarrow> cr_error r0 \<noteq> None)
     \<and> (cr_success r0 \<longrightarrow> list_all step_ok (new_events w w0) \<and> cr_fixed_content r0 \<noteq> None)"
proof -
  have claude: "(\<not> cr_success r0 \<longrightarrow> cr_error r0 \<noteq> None)
      \<and> (cr_success r0 \<longrightarrow> list_all step_ok (new_events w w0) \<and> cr_fixed_content r0 \<noteq> None)"
    using fix_cluster_with_claude_outcome[OF cl] by (auto simp: new_events_append)
  obtain po w1 where c: "create_worktree_for_cluster E base cl w = (po, w1)"
    by (cases "create_worktree_for_cluster E base cl w")
  note co = create_worktree_outcome[OF c]
  have tree: "(\<not> cr_success r \<longrightarrow> cr_error r \<noteq> None)
     \<and> (cr_success r \<longrightarrow>
          list_all step_ok (new_events w w')
          \<and> (\<exists>p rel w1. create_worktree_for_cluster E base cl w = (Some p, w1)
                \<and> relative_to fp base = Inr rel \<and> disk w1 (path_join p rel) \<noteq> None
                \<and> cr_worktree_path r = Some p \<and> cr_rel_path r = Some rel)
          \<and> cr_patch r \<noteq> None \<and> cr_fixed_content r \<noteq> None)"
  proof (cases po)
    case None
    with wt c show ?thesis by (auto simp: fix_cluster_with_worktree_def)
  next
    case (Some p)
    obtain out w2 where b: "worktree_fix_body E cfg fp cl base pf p w1 = (out, w2)"
      by (cases "worktree_fix_body E cfg fp cl base pf p w1")
    show ?thesis
    proof (cases out)
      case (Inl e)
      with wt c Some b show ?thesis by (auto simp: fix_cluster_with_worktree_def)
    next
      case (Inr r')
      with wt c Some b have rw: "r = r'" "w' = w2" by (auto simp: fix_cluster_with_worktree_def)
      note bo = worktree_fix_body_outcome[OF b[unfolded Inr]]
      show ?thesis
      proof (cases "cr_success r")
        case False
        with bo rw show ?thesis by simp
      next
        case True
        with bo rw obtain evs rel where e: "trace w2 = trace w1 @ evs" "list_all step_ok evs"
          and f: "relative_to fp base = Inr rel" "disk w1 (path_join p rel) \<noteq> None"
            "cr_rel_path r = Some rel" "cr_worktree_path r = Some p" "cr_patch r \<noteq> None"
            "cr_fixed_content r \<noteq> None"
          by auto
        from co Some obtain res where a: "trace w1 = trace w @ [Subprocess (worktree_add base p) (Inr res)]"
          "returncode res = 0" by auto
        from a e have "trace w2 = trace w @ (Subprocess (worktree_add base p) (Inr res) # evs)" by simp
        then have "new_events w w' = Subprocess (worktree_add base p) (Inr res) # evs"
          using rw by (simp add: new_events_append)
        with a e have "list_all step_ok (new_events w w')" by simp
        with True f c Some show ?thesis by auto
      qed
    qed
  qed
  from tree claude show ?thesis by blast
qed

theorem cluster_fix_failures_are_results_witness:
  "\<not> cr_success (fst (fix_cluster_with_worktree timing_out_agent default_config ''/repo/a.py''
                       (singleton_cluster undefined_y) ''/repo'' [] repo_world))
   \<and> cr_error (fst (fix_cluster_with_worktree timing_out_agent default_config ''/repo/a.py''
                       (singleton_cluster undefined_y) ''/repo'' [] repo_world)) \<noteq> None
   \<and> \<not> cr_success (fst (fix_cluster_with_claude timing_out_agent default_config ''/repo/a.py''
                       (singleton_cluster undefined_y) session_source repo_world))
   \<and> cr_error (fst (fix_cluster_with_claude timing_out_agent default_config ''/repo/a.py''
                       (singleton_cluster undefined_y) session_source repo_world)) \<noteq> None"
proof -
  have a: "\<not> cr_success (fst (fix_cluster_with_worktree timing_out_agent default_config ''/repo/a.py''
                       (singleton_cluster undefined_y) ''/repo'' [] repo_world))"
    by code_simp
  have b: "\<not> cr_success (fst (fix_cluster_with_claude timing_out_agent default_config ''/repo/a.py''
                       (singleton_cluster undefined_y) session_source repo_world))"
    by code_simp
  from cluster_fix_failures_are_results[OF surjective_pairing surjective_pairing] a b
  show ?thesis by blast
qed

section \<open>Properties of the Merge Engine\<close>

lemma apply_events_Cons [simp]:
  "apply_events base ((p, res) # prs) = Subprocess (git_apply p base) (Inr res) # apply_events base prs"
  by (simp add: apply_events_def)

lemma apply_events_Nil [simp]: "apply_events base [] = []"
  by (simp add: apply_events_def)





end
